theory Spec2Isabelle
  imports Complex_Main
begin

section \<open>Python values used by \<^verbatim>\<open>cnvlib/export.py\<close>\<close>

text \<open>
  The export module is Python 2 code: its \<^verbatim>\<open>__future__\<close> imports give it true division
  and the \<^verbatim>\<open>map\<close>, \<^verbatim>\<open>range\<close> and \<^verbatim>\<open>zip\<close> it takes from \<^verbatim>\<open>Bio._py3k\<close> are the lazy
  ones; everything else, the builtin \<^verbatim>\<open>round\<close> among it, is the Python 2 builtin.
  Integers are unbounded (\<^typ>\<open>int\<close>). The absolute copy numbers and the log2 ratios a
  table holds are floats, given by their exact values (\<^typ>\<open>real\<close>), so that a table
  holds neither NaN nor an infinity; the arithmetic the code does on floats is double
  precision arithmetic, modelled with its rounding, its infinities and NaN.

  Every exception the modelled code can raise is a value of \<open>error\<close>; a function that can
  raise returns \<open>error + 'a\<close>, with \<open>Inl\<close> for the exception.
\<close>

datatype error =
    KeyError string
  | ValueError string
  | IOError string
  | UnboundLocalError string
  | OverflowError string
  | ZeroDivisionError string
  | IdentityMismatch string
  | ChromosomeSetMismatch string

text \<open>
  The builtin \<^verbatim>\<open>round(x)\<close> of Python 2 on a float, with no second argument, as the
  interpreter computes it: the integral part of the absolute value, one more when the
  fractional part reaches one half, and the sign of \<open>x\<close>. It returns a float with an
  integral value, which the \<^verbatim>\<open>int(...)\<close> around it in the source turns into that integer.
\<close>

definition py_round :: "real \<Rightarrow> int" where
  "py_round x =
     (let absx = \<bar>x\<bar>;
          y = \<lfloor>absx\<rfloor>;
          y' = (if 1 / 2 \<le> absx - of_int y then y + 1 else y)
      in if x < 0 then - y' else y')"

text \<open>The rule the specification names: the nearest integer, ties away from zero.\<close>

definition round_half_away_from_zero :: "real \<Rightarrow> int" where
  "round_half_away_from_zero x = (if 0 \<le> x then \<lfloor>x + 1 / 2\<rfloor> else \<lceil>x - 1 / 2\<rceil>)"

subsection \<open>String formatting\<close>

fun digits :: "nat \<Rightarrow> string" where
  "digits n =
     (if n < 10 then [''0123456789'' ! n]
      else digits (n div 10) @ [''0123456789'' ! (n mod 10)])"

declare digits.simps [simp del]

text \<open>\<^verbatim>\<open>"%d" % i\<close> for an integer \<open>i\<close>.\<close>

definition fmt_d :: "int \<Rightarrow> string" where
  "fmt_d i = (if i < 0 then ''-'' @ digits (nat (- i)) else digits (nat i))"

definition strip_zeros :: "string \<Rightarrow> string" where
  "strip_zeros s = rev (dropWhile (\<lambda>c. c = CHR ''0'') (rev s))"

text \<open>
  The conversion of an integer to a float (a double): the integer itself below \<open>2\<^sup>5\<^sup>3\<close>,
  and from there on the nearest integer with 53 significant bits, ties to the even one.
  The result is the exact value of the double, which is an integer. The conversion raises
  \<^verbatim>\<open>OverflowError\<close> when the rounded value reaches \<open>2\<^sup>1\<^sup>0\<^sup>2\<^sup>4\<close>.
\<close>

fun bitlen :: "nat \<Rightarrow> nat" where
  "bitlen n = (if n = 0 then 0 else Suc (bitlen (n div 2)))"

declare bitlen.simps [simp del]

definition nat_to_double :: "nat \<Rightarrow> nat" where
  "nat_to_double m =
     (if m < 2 ^ 53 then m
      else
        (let sh = bitlen m - 53;
             q = m div 2 ^ sh;
             r = m mod 2 ^ sh;
             q' = (if 2 ^ sh < 2 * r \<or> (2 * r = 2 ^ sh \<and> odd q) then q + 1 else q)
         in q' * 2 ^ sh))"

definition int_to_double :: "int \<Rightarrow> int" where
  "int_to_double i = (if i < 0 then - int (nat_to_double (nat (- i))) else int (nat_to_double (nat i)))"

definition float_overflows :: "int \<Rightarrow> bool" where
  "float_overflows i = (2 ^ 1024 \<le> \<bar>int_to_double i\<bar>)"

definition float_of_int :: "int \<Rightarrow> error + int" where
  "float_of_int i =
     (if float_overflows i then Inl (OverflowError ''long int too large to convert to float'')
      else Inr (int_to_double i))"

text \<open>
  \<^verbatim>\<open>"%g"\<close> applied to a double of integral value \<open>d\<close>: the value is printed with six
  significant digits, in plain notation below \<open>10\<^sup>6\<close> and in exponent notation from there
  on (the mantissa rounded to six digits, ties to even, its trailing zeros removed, the
  exponent with at least two digits).
\<close>

definition fmt_g_nat :: "nat \<Rightarrow> string" where
  "fmt_g_nat m =
     (if m < 1000000 then digits m
      else
        (let k = length (digits m);
             sh = k - 6;
             q = m div 10 ^ sh;
             r = m mod 10 ^ sh;
             q' = (if 10 ^ sh < 2 * r \<or> (2 * r = 10 ^ sh \<and> odd q) then q + 1 else q);
             e = (if q' = 1000000 then k else k - 1);
             ds = digits (if q' = 1000000 then 100000 else q');
             frac = strip_zeros (tl ds)
         in [hd ds] @ (if frac = [] then [] else ''.'' @ frac)
            @ ''e+'' @ (if e < 10 then ''0'' else []) @ digits e))"

definition fmt_g_double :: "int \<Rightarrow> string" where
  "fmt_g_double d = (if d < 0 then ''-'' @ fmt_g_nat (nat (- d)) else fmt_g_nat (nat d))"

text \<open>\<^verbatim>\<open>"%g" % i\<close> for an integer \<open>i\<close>, which is first converted to a float.\<close>

definition fmt_g :: "int \<Rightarrow> error + string" where
  "fmt_g i = (case float_of_int i of Inl e \<Rightarrow> Inl e | Inr d \<Rightarrow> Inr (fmt_g_double d))"

text \<open>\<^verbatim>\<open>sep.join(parts)\<close>.\<close>

fun join :: "string \<Rightarrow> string list \<Rightarrow> string" where
  "join sep [] = []"
| "join sep [x] = x"
| "join sep (x # y # ys) = x @ sep @ join sep (y # ys)"

section \<open>Segment tables\<close>

text \<open>
  A row of a copy number array, with the fields the exporters read. The array itself
  (\<^verbatim>\<open>CopyNumArray\<close>, read by \<^verbatim>\<open>CNA.read\<close>) is not part of this module; of it the
  exporters use the sample name, the test \<^verbatim>\<open>'probes' in segments\<close> and the iteration over
  its rows. When the array has no \<^verbatim>\<open>probes\<close> column, the field \<open>probes\<close> of its rows is
  never read: \<^verbatim>\<open>row["probes"]\<close> raises \<^verbatim>\<open>KeyError\<close>.
\<close>

record row =
  chromosome :: string
  start :: int
  end_pos :: int
  gene :: string
  log2 :: real
  probes :: int

record cna =
  sample_id :: string
  has_probes :: bool
  rows :: "row list"

definition row_probes :: "cna \<Rightarrow> row \<Rightarrow> error + int" where
  "row_probes segments r =
     (if has_probes segments then Inr (probes r) else Inl (KeyError ''probes''))"

section \<open>BED\<close>

type_synonym bed_row = "string \<times> int \<times> int \<times> string \<times> int"

text \<open>
  The generator \<^verbatim>\<open>segments2bed\<close>: the loop over \<^verbatim>\<open>zip(segments, absolutes)\<close>, and the
  list of the rows it yields. \<^verbatim>\<open>call.absolute_pure\<close> belongs to another module and is a
  parameter.
\<close>

fun segments2bed_loop :: "(row \<times> real) list \<Rightarrow> string \<Rightarrow> int \<Rightarrow> bool \<Rightarrow> bed_row list" where
  "segments2bed_loop [] label ploidy show_neutral = []"
| "segments2bed_loop ((r, abs_val) # rest) label ploidy show_neutral =
     (let ncopies = py_round abs_val
      in (if show_neutral \<or> ncopies \<noteq> ploidy
          then [(chromosome r, start r, end_pos r, label, ncopies)]
          else [])
         @ segments2bed_loop rest label ploidy show_neutral)"

definition segments2bed ::
  "(cna \<Rightarrow> int \<Rightarrow> bool \<Rightarrow> real list) \<Rightarrow> cna \<Rightarrow> string \<Rightarrow> int \<Rightarrow> bool \<Rightarrow> bool \<Rightarrow> bed_row list" where
  "segments2bed absolute_pure segments label ploidy is_reference_male show_neutral =
     (let absolutes = absolute_pure segments ploidy is_reference_male
      in segments2bed_loop (zip (rows segments) absolutes) label ploidy show_neutral)"

section \<open>VCF\<close>

text \<open>
  One record yielded by \<^verbatim>\<open>segments2vcf\<close>:
  \<open>(chromosome, position, svtype, info, formats, genotype)\<close>.
\<close>

type_synonym vcf_record = "string \<times> int \<times> string \<times> string \<times> string \<times> string"

text \<open>
  The body of the loop of \<^verbatim>\<open>segments2vcf\<close> for one segment and its absolute copy number:
  the records it yields (none after \<^verbatim>\<open>continue\<close>, one otherwise), or the exception it
  raises. The chain \<^verbatim>\<open>if ncopies > ploidy ... elif ncopies < ploidy ...\<close> has no \<^verbatim>\<open>else\<close>;
  falling through it would leave \<^verbatim>\<open>svtype\<close> unassigned. In the first branch \<^verbatim>\<open>%g\<close>
  converts the probe count to a float, which is where an \<^verbatim>\<open>OverflowError\<close> can come from.
\<close>

definition segments2vcf_body :: "cna \<Rightarrow> row \<Rightarrow> real \<Rightarrow> int \<Rightarrow> error + vcf_record list" where
  "segments2vcf_body segments r abs_val ploidy =
     (let ncopies = py_round abs_val
      in if ncopies = ploidy then Inr []
         else
           (let svlen = end_pos r - start r
            in case
                 (if ncopies > ploidy then
                    (case row_probes segments r of
                       Inl e \<Rightarrow> Inl e
                     | Inr pr \<Rightarrow>
                         (case fmt_g pr of
                            Inl e \<Rightarrow> Inl e
                          | Inr g \<Rightarrow>
                              Inr (''DUP'', svlen, ''GT:GQ:CN:CNQ'',
                                   ''0/1:0:'' @ fmt_d ncopies @ '':'' @ g)))
                  else if ncopies < ploidy then
                    (let gt = (if ncopies = 0 then ''1/1'' else ''0/1'')
                     in case row_probes segments r of
                          Inl e \<Rightarrow> Inl e
                        | Inr pr \<Rightarrow>
                            Inr (''DEL'', svlen * - 1, ''GT:GQ'', gt @ '':'' @ fmt_d pr))
                  else Inl (UnboundLocalError ''svtype''))
               of
                 Inl e \<Rightarrow> Inl e
               | Inr (svtype, svlen', formats, genotype) \<Rightarrow>
                   (let info = join '';''
                          [''IMPRECISE'',
                           ''SVTYPE='' @ svtype,
                           ''END='' @ fmt_d (end_pos r),
                           ''SVLEN='' @ fmt_d svlen']
                    in Inr [(chromosome r, max 1 (start r), svtype, info, formats, genotype)])))"

text \<open>
  The generator as the trace of its run: the records yielded, in order, and the
  exception that ended the run, if one did.
\<close>

fun segments2vcf_loop :: "cna \<Rightarrow> (row \<times> real) list \<Rightarrow> int \<Rightarrow> vcf_record list \<times> error option" where
  "segments2vcf_loop segments [] ploidy = ([], None)"
| "segments2vcf_loop segments ((r, abs_val) # rest) ploidy =
     (case segments2vcf_body segments r abs_val ploidy of
        Inl e \<Rightarrow> ([], Some e)
      | Inr ys \<Rightarrow>
          (let tr = segments2vcf_loop segments rest ploidy in (ys @ fst tr, snd tr)))"

definition segments2vcf ::
  "(cna \<Rightarrow> int \<Rightarrow> bool \<Rightarrow> real list) \<Rightarrow> cna \<Rightarrow> int \<Rightarrow> bool \<Rightarrow> vcf_record list \<times> error option" where
  "segments2vcf absolute_pure segments ploidy is_reference_male =
     (let absolutes = absolute_pure segments ploidy is_reference_male
      in segments2vcf_loop segments (zip (rows segments) absolutes) ploidy)"



text \<open>
  The records the specification gives a segment whose copy number is \<open>ncopies\<close>: none at
  the ploidy, a duplication above it, a deletion below it.
\<close>

definition vcf_records_of :: "row \<Rightarrow> int \<Rightarrow> int \<Rightarrow> vcf_record list" where
  "vcf_records_of r ncopies ploidy =
     (if ncopies = ploidy then []
      else if ploidy < ncopies then
        [(chromosome r, max 1 (start r), ''DUP'',
          ''IMPRECISE;SVTYPE=DUP;END='' @ fmt_d (end_pos r) @ '';SVLEN='' @ fmt_d (end_pos r - start r),
          ''GT:GQ:CN:CNQ'',
          ''0/1:0:'' @ fmt_d ncopies @ '':'' @ fmt_g_double (int_to_double (probes r)))]
      else
        [(chromosome r, max 1 (start r), ''DEL'',
          ''IMPRECISE;SVTYPE=DEL;END='' @ fmt_d (end_pos r)
            @ '';SVLEN='' @ fmt_d (- (end_pos r - start r)),
          ''GT:GQ'',
          (if ncopies = 0 then ''1/1'' else ''0/1'') @ '':'' @ fmt_d (probes r))])"

section \<open>SEG\<close>

text \<open>A value in an output tuple: a string, an integer or a float.\<close>

datatype cell = S string | I int | R real

text \<open>
  \<^verbatim>\<open>create_chrom_ids\<close>. The \<^verbatim>\<open>OrderedDict\<close> is an association list in insertion order;
  a key is added only when it is not yet there, so the keys are distinct.
\<close>

fun create_chrom_ids_loop :: "string list \<Rightarrow> (string \<times> int) list \<Rightarrow> int \<Rightarrow> (string \<times> int) list" where
  "create_chrom_ids_loop [] mapping curr_idx = mapping"
| "create_chrom_ids_loop (chrom # rest) mapping curr_idx =
     (if chrom \<notin> set (map fst mapping)
      then create_chrom_ids_loop rest (mapping @ [(chrom, curr_idx)]) (curr_idx + 1)
      else create_chrom_ids_loop rest mapping curr_idx)"

definition create_chrom_ids :: "cna \<Rightarrow> (string \<times> int) list" where
  "create_chrom_ids segments = create_chrom_ids_loop (map chromosome (rows segments)) [] 1"

text \<open>
  Modelled from the spec: \<^verbatim>\<open>core.assert_equal\<close> is defined in another module, which is
  not among the sources. The specification says of the check made with it that every
  later sample's chromosome name set must equal the first sample's or the run fails with
  a chromosome set mismatch error; only the key sets are compared, the order of the keys
  is not.
\<close>

definition assert_equal :: "string \<Rightarrow> string list \<Rightarrow> string list \<Rightarrow> error + unit" where
  "assert_equal msg previous current =
     (if set previous = set current then Inr () else Inl (ChromosomeSetMismatch msg))"

text \<open>A generator expression consumed to its end: the values in order, or the first exception.\<close>

fun collect :: "('a \<Rightarrow> error + 'b) \<Rightarrow> 'a list \<Rightarrow> error + 'b list" where
  "collect f [] = Inr []"
| "collect f (x # xs) =
     (case f x of
        Inl e \<Rightarrow> Inl e
      | Inr y \<Rightarrow> (case collect f xs of Inl e \<Rightarrow> Inl e | Inr ys \<Rightarrow> Inr (y # ys)))"

text \<open>\<^verbatim>\<open>chrom_ids[key]\<close>.\<close>

definition chrom_id_of :: "(string \<times> int) list \<Rightarrow> string \<Rightarrow> error + int" where
  "chrom_id_of chrom_ids key =
     (case map_of chrom_ids key of None \<Rightarrow> Inl (KeyError key) | Some i \<Rightarrow> Inr i)"

text \<open>
  The loop of \<^verbatim>\<open>export_seg\<close> over the arrays read from the sample files, with the three
  variables it updates: \<^verbatim>\<open>outrows\<close>, \<^verbatim>\<open>chrom_ids\<close> (\<^verbatim>\<open>None\<close> before the first sample) and
  \<^verbatim>\<open>outheader\<close> (unassigned before the first sample).
\<close>

fun export_seg_loop ::
  "cna list \<Rightarrow> cell list list \<Rightarrow> (string \<times> int) list option \<Rightarrow> string list option
     \<Rightarrow> error + (string list option \<times> cell list list)" where
  "export_seg_loop [] outrows chrom_ids outheader = Inr (outheader, outrows)"
| "export_seg_loop (segments # rest) outrows chrom_ids outheader =
     (case
        (case chrom_ids of
           None \<Rightarrow> Inr (create_chrom_ids segments)
         | Some ids \<Rightarrow>
             (case assert_equal ''Segment chromosome names differ''
                     (map fst ids) (map fst (create_chrom_ids segments)) of
                Inl e \<Rightarrow> Inl e
              | Inr u \<Rightarrow> Inr ids))
      of
        Inl e \<Rightarrow> Inl e
      | Inr ids \<Rightarrow>
          (let (outheader', row2out) =
                 (if has_probes segments then
                    ([''ID'', ''Chromosome'', ''Start'', ''End'', ''NumProbes'', ''Mean''],
                     \<lambda>r. case chrom_id_of ids (chromosome r) of
                            Inl e \<Rightarrow> Inl e
                          | Inr cid \<Rightarrow>
                              Inr [S (sample_id segments), I cid, I (start r), I (end_pos r),
                                   I (probes r), R (log2 r)])
                  else
                    ([''ID'', ''Chromosome'', ''Start'', ''End'', ''Mean''],
                     \<lambda>r. case chrom_id_of ids (chromosome r) of
                            Inl e \<Rightarrow> Inl e
                          | Inr cid \<Rightarrow>
                              Inr [S (sample_id segments), I cid, I (start r), I (end_pos r),
                                   R (log2 r)]))
           in case collect row2out (rows segments) of
                Inl e \<Rightarrow> Inl e
              | Inr new \<Rightarrow> export_seg_loop rest (outrows @ new) (Some ids) (Some outheader')))"

text \<open>
  \<^verbatim>\<open>export_seg\<close>. With no sample at all the loop body never runs and the final
  \<^verbatim>\<open>return outheader, outrows\<close> reads an unassigned variable.
\<close>

definition export_seg :: "cna list \<Rightarrow> error + (string list \<times> cell list list)" where
  "export_seg samples =
     (case export_seg_loop samples [] None None of
        Inl e \<Rightarrow> Inl e
      | Inr (None, outrows) \<Rightarrow> Inl (UnboundLocalError ''outheader'')
      | Inr (Some outheader, outrows) \<Rightarrow> Inr (outheader, outrows))"

text \<open>
  The columns and the values of a SEG row as the specification lists them:
  \<open>ID, Chromosome, Start, End, [NumProbes,] Mean\<close>.
\<close>

definition seg_columns :: "bool \<Rightarrow> string list" where
  "seg_columns with_probes =
     [''ID'', ''Chromosome'', ''Start'', ''End'']
     @ (if with_probes then [''NumProbes''] else []) @ [''Mean'']"

definition seg_values :: "(string \<times> int) list \<Rightarrow> cna \<Rightarrow> row \<Rightarrow> cell list" where
  "seg_values chrom_ids segments r =
     [S (sample_id segments), I (the (map_of chrom_ids (chromosome r))), I (start r), I (end_pos r)]
     @ (if has_probes segments then [I (probes r)] else []) @ [R (log2 r)]"

definition chrom_names :: "cna \<Rightarrow> string set" where
  "chrom_names segments = set (map chromosome (rows segments))"

section \<open>THetA\<close>

subsection \<open>Double precision arithmetic\<close>

text \<open>
  A float is a double: a number (its exact value), an infinity or NaN. The two signs of
  infinity and of zero are not told apart: they play no part in the integer the code
  derives from a product and a quotient, nor in the exception it raises instead.
\<close>

datatype double = Finite real | Infinity | NaN

text \<open>Rounding to an integer, ties to the even one.\<close>

definition round_even :: "real \<Rightarrow> int" where
  "round_even x =
     (let f = \<lfloor>x\<rfloor>; d = x - of_int f
      in if d < 1 / 2 then f
         else if 1 / 2 < d then f + 1
         else if even f then f else f + 1)"

text \<open>
  The spacing of the doubles around \<open>x\<close>: 53 significant bits from \<open>2\<^sup>-\<^sup>1\<^sup>0\<^sup>2\<^sup>2\<close> on, and the
  fixed spacing \<open>2\<^sup>-\<^sup>1\<^sup>0\<^sup>7\<^sup>4\<close> of the subnormal numbers below.
\<close>

definition binade :: "real \<Rightarrow> int" where
  "binade x = max \<lfloor>log 2 \<bar>x\<bar>\<rfloor> (- 1022)"

definition ulp :: "real \<Rightarrow> real" where
  "ulp x = 2 powr of_int (binade x - 52)"

text \<open>
  The double nearest to a real number, ties to even, as every arithmetic operation
  rounds its exact result; the result is an infinity when the rounded value reaches
  \<open>2\<^sup>1\<^sup>0\<^sup>2\<^sup>4\<close>.
\<close>

definition nearest :: "real \<Rightarrow> real" where
  "nearest x = (if x = 0 then 0 else of_int (round_even (x / ulp x)) * ulp x)"

definition real_overflows :: "real \<Rightarrow> bool" where
  "real_overflows y = (2 ^ 1024 \<le> \<bar>y\<bar>)"

definition fl :: "real \<Rightarrow> double" where
  "fl x = (if real_overflows (nearest x) then Infinity else Finite (nearest x))"

text \<open>\<^verbatim>\<open>a * b\<close> and \<^verbatim>\<open>a / b\<close> on floats; dividing by zero raises.\<close>

fun fmul :: "double \<Rightarrow> double \<Rightarrow> double" where
  "fmul (Finite x) (Finite y) = fl (x * y)"
| "fmul NaN b = NaN"
| "fmul a NaN = NaN"
| "fmul Infinity (Finite y) = (if y = 0 then NaN else Infinity)"
| "fmul (Finite x) Infinity = (if x = 0 then NaN else Infinity)"
| "fmul Infinity Infinity = Infinity"

fun fdiv :: "double \<Rightarrow> double \<Rightarrow> error + double" where
  "fdiv a (Finite y) =
     (if y = 0 then Inl (ZeroDivisionError ''float division by zero'')
      else case a of Finite x \<Rightarrow> Inr (fl (x / y)) | Infinity \<Rightarrow> Inr Infinity | NaN \<Rightarrow> Inr NaN)"
| "fdiv a NaN = Inr NaN"
| "fdiv (Finite x) Infinity = Inr (Finite 0)"
| "fdiv Infinity Infinity = Inr NaN"
| "fdiv NaN Infinity = Inr NaN"

text \<open>\<^verbatim>\<open>float(i)\<close> for an integer, as a double.\<close>

definition to_float :: "int \<Rightarrow> error + double" where
  "to_float i = (case float_of_int i of Inl e \<Rightarrow> Inl e | Inr d \<Rightarrow> Inr (Finite (of_int d)))"

text \<open>\<^verbatim>\<open>int(round(x))\<close> for a float \<open>x\<close>.\<close>

definition int_round :: "double \<Rightarrow> error + int" where
  "int_round a =
     (case a of
        Finite x \<Rightarrow> Inr (py_round x)
      | Infinity \<Rightarrow> Inl (OverflowError ''cannot convert float infinity to integer'')
      | NaN \<Rightarrow> Inl (ValueError ''cannot convert float NaN to integer''))"

subsection \<open>The encoder\<close>

text \<open>
  The function \<^verbatim>\<open>logratio2count\<close> nested in \<^verbatim>\<open>calculate_theta_fields\<close>; the three
  variables of the enclosing function it reads are arguments. \<^verbatim>\<open>2 ** log2_ratio\<close> is
  computed by the power function of the platform's C library, which is the parameter
  \<open>pow2\<close>: the float it returns, or the exception raised for a result out of range.
  Every other operation is a float operation on converted integers.
\<close>

definition logratio2count ::
  "(real \<Rightarrow> error + double) \<Rightarrow> int \<Rightarrow> int \<Rightarrow> int \<Rightarrow> real \<Rightarrow> error + int" where
  "logratio2count pow2 expect_depth read_length segment_size log2_ratio =
     (case pow2 log2_ratio of
        Inl e \<Rightarrow> Inl e
      | Inr pw \<Rightarrow>
          (case to_float expect_depth of
             Inl e \<Rightarrow> Inl e
           | Inr ed \<Rightarrow>
               (let read_depth = fmul pw ed
                in case to_float segment_size of
                     Inl e \<Rightarrow> Inl e
                   | Inr ss \<Rightarrow>
                       (case to_float read_length of
                          Inl e \<Rightarrow> Inl e
                        | Inr rl \<Rightarrow>
                            (case fdiv (fmul ss read_depth) rl of
                               Inl e \<Rightarrow> Inl e
                             | Inr read_count \<Rightarrow> int_round read_count)))))"

type_synonym theta_row = "string \<times> int \<times> int \<times> int \<times> int \<times> int"

text \<open>
  \<^verbatim>\<open>calculate_theta_fields\<close>. \<open>ref_mean\<close> is the value of \<^verbatim>\<open>ref_rows["log2"].mean()\<close>, which
  pandas computes from the reference bins grouped under the segment.
\<close>

definition calculate_theta_fields ::
  "(real \<Rightarrow> error + double) \<Rightarrow> cna \<Rightarrow> row \<Rightarrow> real \<Rightarrow> int \<Rightarrow> error + theta_row" where
  "calculate_theta_fields pow2 tumor_segs seg ref_mean chrom_id =
     (let expect_depth = 100;
          read_length = 100
      in case row_probes tumor_segs seg of
           Inl e \<Rightarrow> Inl e
         | Inr pr \<Rightarrow>
             (let segment_size = 1000 * pr
              in case logratio2count pow2 expect_depth read_length segment_size (log2 seg) of
                   Inl e \<Rightarrow> Inl e
                 | Inr tumor_count \<Rightarrow>
                     (case logratio2count pow2 expect_depth read_length segment_size ref_mean of
                        Inl e \<Rightarrow> Inl e
                      | Inr ref_count \<Rightarrow>
                          (let row_id = ''start_'' @ fmt_d chrom_id @ ''_'' @ fmt_d (start seg)
                                   @ '':end_'' @ fmt_d chrom_id @ ''_'' @ fmt_d (end_pos seg)
                           in Inr (row_id, chrom_id, start seg, end_pos seg,
                                   tumor_count, ref_count)))))"

section \<open>Merging coverage tables\<close>

text \<open>
  \<^verbatim>\<open>ProbeInfo = namedtuple('ProbeInfo', 'label chrom start end gene')\<close>, and a value of a
  merged row: the probe at its head, then one coverage per sample.
\<close>

datatype probe_info =
  ProbeInfo (probe_label: string) (probe_chrom: string) (probe_start: int) (probe_end: int)
    (probe_gene: string)

datatype merged_value = Probe probe_info | Coverage real

text \<open>
  \<^verbatim>\<open>row_to_probe_coverage\<close>. A parsed row is a list of strings (the fields of a line).
  The builtins \<^verbatim>\<open>int\<close> and \<^verbatim>\<open>float\<close> applied to a string are the parameters \<open>py_int\<close> and
  \<open>py_float\<close> (\<open>None\<close> where the builtin raises \<^verbatim>\<open>ValueError\<close>). Unpacking \<^verbatim>\<open>row[:5]\<close>
  into five names raises \<^verbatim>\<open>ValueError\<close> when the row has fewer than five fields.
\<close>

definition row_to_probe_coverage ::
  "(string \<Rightarrow> int option) \<Rightarrow> (string \<Rightarrow> real option) \<Rightarrow> string list
     \<Rightarrow> error + (probe_info \<times> real)" where
  "row_to_probe_coverage py_int py_float row =
     (case take 5 row of
        [chrom, start', end', gene', coverage] \<Rightarrow>
          (let label = chrom @ '':'' @ start' @ ''-'' @ end' @ '':'' @ gene'
           in case py_int start' of
                None \<Rightarrow> Inl (ValueError start')
              | Some s \<Rightarrow>
                  (case py_int end' of
                     None \<Rightarrow> Inl (ValueError end')
                   | Some e \<Rightarrow>
                       (case py_float coverage of
                          None \<Rightarrow> Inl (ValueError coverage)
                        | Some c \<Rightarrow> Inr (ProbeInfo label chrom s e gene', c))))
      | _ \<Rightarrow> Inl (ValueError ''not enough values to unpack''))"

text \<open>
  Modelled from the spec: \<^verbatim>\<open>core.check_unique\<close> is defined in another module, which is
  not among the sources. The specification says of the check made with it: verify that
  every ProbeInfo in the tuple has an identical label; if not, fail with a validation
  error identifying the mismatched field (the title passed, \<open>probe Name\<close>); otherwise the
  shared probe info is the result. Where the labels agree the model returns the first
  item.
\<close>

definition check_unique :: "probe_info list \<Rightarrow> string \<Rightarrow> error + probe_info" where
  "check_unique items title =
     (if \<forall>x \<in> set items. \<forall>y \<in> set items. probe_label x = probe_label y
      then Inr (hd items)
      else Inl (IdentityMismatch title))"

text \<open>
  \<^verbatim>\<open>merge_rows\<close>. \<^verbatim>\<open>zip(*map(row_to_probe_coverage, rows))\<close> runs the conversion over
  all the rows, in order, before anything is compared; unpacking its result into two
  names raises \<^verbatim>\<open>ValueError\<close> when there is no row.
\<close>

definition merge_rows ::
  "(string \<Rightarrow> int option) \<Rightarrow> (string \<Rightarrow> real option) \<Rightarrow> string list list
     \<Rightarrow> error + merged_value list" where
  "merge_rows py_int py_float rows' =
     (case collect (row_to_probe_coverage py_int py_float) rows' of
        Inl e \<Rightarrow> Inl e
      | Inr pairs \<Rightarrow>
          if pairs = [] then Inl (ValueError ''not enough values to unpack'')
          else
            (let probe_infos = map fst pairs;
                 coverages = map snd pairs
             in case check_unique probe_infos ''probe Name'' of
                  Inl e \<Rightarrow> Inl e
                | Inr probe_info \<Rightarrow>
                    (let combined_row = [Probe probe_info] @ map Coverage coverages
                     in Inr combined_row)))"

text \<open>The label \<^verbatim>\<open>row_to_probe_coverage\<close> derives from a row of at least five fields.\<close>

definition derived_label :: "string list \<Rightarrow> string" where
  "derived_label row = row ! 0 @ '':'' @ row ! 1 @ ''-'' @ row ! 2 @ '':'' @ row ! 3"

subsection \<open>The generator \<^verbatim>\<open>merge_samples\<close>\<close>

text \<open>
  \<^verbatim>\<open>zip(*datastreams)\<close>: the tuples of the rows at the same position of every stream, up
  to the end of the shortest stream; nothing for no stream at all.
\<close>

function py_zip :: "'a list list \<Rightarrow> 'a list list" where
  "py_zip streams =
     (if streams = [] \<or> [] \<in> set streams then []
      else map hd streams # py_zip (map tl streams))"
  by pat_completeness auto
termination
proof (relation "measure (\<lambda>streams. length (hd streams))")
  show "wf (measure (\<lambda>streams. length (hd streams)))" by simp
next
  fix streams :: "'a list list"
  assume "\<not> (streams = [] \<or> [] \<in> set streams)"
  then have ne: "streams \<noteq> []" and nin: "[] \<notin> set streams" by auto
  from ne have "hd streams \<in> set streams" by (rule hd_in_set)
  with nin have "hd streams \<noteq> []" by metis
  with ne have "streams \<noteq> []" and "hd streams \<noteq> []" by blast+
  then show "(map tl streams, streams) \<in> measure (\<lambda>streams. length (hd streams))"
    by (simp add: hd_map)
qed

declare py_zip.simps [simp del]

text \<open>
  The files: \<open>files fname\<close> is the sequence of rows that \<^verbatim>\<open>core.parse_tsv\<close> (another
  module's) reads from the file of that name, \<open>None\<close> when \<^verbatim>\<open>open\<close> fails. A handle is
  the name of its file and whether it is still open; a handle is closed by
  \<^verbatim>\<open>handle.close()\<close> and by nothing else.
\<close>

type_synonym handle = "string \<times> bool"

record merge_state =
  handles :: "handle list"
  datastreams :: "string list list list"

fun open_all :: "(string \<Rightarrow> string list list option) \<Rightarrow> string list \<Rightarrow> merge_state
     \<Rightarrow> merge_state \<times> error option" where
  "open_all files [] st = (st, None)"
| "open_all files (fname # rest) st =
     (case files fname of
        None \<Rightarrow> (st, Some (IOError fname))
      | Some data \<Rightarrow>
          open_all files rest
            (st\<lparr>handles := handles st @ [(fname, True)],
                datastreams := datastreams st @ [data]\<rparr>))"

definition close_all :: "handle list \<Rightarrow> handle list" where
  "close_all hs = map (\<lambda>(fname, is_open). (fname, False)) hs"

text \<open>
  How a run of the generator ended: its body ran to the end, an exception left it, or
  the caller dropped it while it was suspended at a \<^verbatim>\<open>yield\<close>.
\<close>

datatype outcome = Exhausted | Raised error | Abandoned

text \<open>
  The loop \<^verbatim>\<open>for rows in zip(*datastreams): yield merge_rows(rows)\<close> and the clean-up
  after it, driven by a caller who asks for \<open>demand\<close> items (\<open>None\<close>: for all of them)
  and then stops: the merged rows yielded, the outcome, and the handles as the run leaves
  them. The code handles neither an exception nor the generator's close, so that only
  the normal end of the loop reaches the clean-up.
\<close>

fun merge_loop ::
  "(string \<Rightarrow> int option) \<Rightarrow> (string \<Rightarrow> real option) \<Rightarrow> string list list list \<Rightarrow> nat option
     \<Rightarrow> handle list \<Rightarrow> merged_value list list \<times> outcome \<times> handle list" where
  "merge_loop py_int py_float tuples (Some 0) hs = ([], Abandoned, hs)"
| "merge_loop py_int py_float [] demand hs = ([], Exhausted, close_all hs)"
| "merge_loop py_int py_float (rows' # rest) demand hs =
     (case merge_rows py_int py_float rows' of
        Inl e \<Rightarrow> ([], Raised e, hs)
      | Inr merged \<Rightarrow>
          (case merge_loop py_int py_float rest (map_option (\<lambda>n. n - 1) demand) hs of
             (out, oc, hs') \<Rightarrow> (merged # out, oc, hs')))"

text \<open>
  \<^verbatim>\<open>merge_samples\<close>. The body of a generator does not start before its first item is
  asked for: a caller who asks for nothing opens no file.
\<close>

definition merge_samples ::
  "(string \<Rightarrow> string list list option) \<Rightarrow> (string \<Rightarrow> int option) \<Rightarrow> (string \<Rightarrow> real option)
     \<Rightarrow> string list \<Rightarrow> nat option \<Rightarrow> merged_value list list \<times> outcome \<times> handle list" where
  "merge_samples files py_int py_float filenames demand =
     (if demand = Some 0 then ([], Abandoned, [])
      else
        (case open_all files filenames \<lparr>handles = [], datastreams = []\<rparr> of
           (st, Some e) \<Rightarrow> ([], Raised e, handles st)
         | (st, None) \<Rightarrow>
             merge_loop py_int py_float (py_zip (datastreams st)) demand (handles st)))"

section \<open>The table of formats\<close>

text \<open>
  The formatters the module defines, and what one of the table formatters returns: a
  header with rows, or Python's constant \<^verbatim>\<open>NotImplemented\<close>.
\<close>

datatype exporter =
  Fmt_cdt | Fmt_gct | Fmt_jtv | Fmt_multi | Export_nexus_basic | Export_seg | Export_theta
  | Export_vcf

datatype fmt_result = NotImplemented | Table "string list" "merged_value list list"

definition fmt_gct :: "string list \<Rightarrow> merged_value list list \<Rightarrow> fmt_result" where
  "fmt_gct sample_ids rows' = NotImplemented"

definition fmt_multi :: "string list \<Rightarrow> merged_value list list \<Rightarrow> fmt_result" where
  "fmt_multi sample_ids rows' = NotImplemented"

text \<open>
  The dictionary \<^verbatim>\<open>EXPORT_FORMATS\<close>; the entries for \<open>gct\<close> and \<open>nexus-multi1\<close> are
  commented out in the source. \<^verbatim>\<open>EXPORT_FORMATS[name]\<close> raises \<^verbatim>\<open>KeyError\<close> for a name that
  is not a key.
\<close>

definition EXPORT_FORMATS :: "(string \<times> exporter) list" where
  "EXPORT_FORMATS =
     [(''cdt'', Fmt_cdt),
      (''jtv'', Fmt_jtv),
      (''nexus-basic'', Export_nexus_basic),
      (''seg'', Export_seg),
      (''theta'', Export_theta),
      (''vcf'', Export_vcf)]"

definition lookup_format :: "string \<Rightarrow> error + exporter" where
  "lookup_format name =
     (case map_of EXPORT_FORMATS name of None \<Rightarrow> Inl (KeyError name) | Some f \<Rightarrow> Inr f)"

section \<open>Properties of the BED encoder\<close>

lemma segments2bed_loop_filter:
  "segments2bed_loop zs label p show_neutral =
     map (\<lambda>(r, v). (chromosome r, start r, end_pos r, label, py_round v))
       (filter (\<lambda>(r, v). show_neutral \<or> py_round v \<noteq> p) zs)"
  by (induction zs) (auto simp: Let_def)

text \<open>
  C8. The BED encoder walks the segments paired with their absolute copy numbers and
  emits, in order, the row \<open>(chromosome, start, end, label, round v)\<close> of exactly those
  pairs for which \<open>show_neutral\<close> is set or \<open>round v\<close> differs from the ploidy; the other
  pairs produce no row.
\<close>

theorem segments2bed_emits_iff:
  "segments2bed absolute_pure segments label p male show_neutral =
     map (\<lambda>(r, v). (chromosome r, start r, end_pos r, label, py_round v))
       (filter (\<lambda>(r, v). show_neutral \<or> py_round v \<noteq> p)
          (zip (rows segments) (absolute_pure segments p male)))"
  by (simp add: segments2bed_def segments2bed_loop_filter)

theorem segments2bed_emits_iff_witness:
  "segments2bed (\<lambda>s p m. [2, 1])
     \<lparr>sample_id = ''S'', has_probes = True,
      rows = [\<lparr>chromosome = ''chr1'', start = 0, end_pos = 100, gene = ''G'', log2 = 0, probes = 5\<rparr>,
              \<lparr>chromosome = ''chr1'', start = 100, end_pos = 250, gene = ''G'', log2 = -1, probes = 7\<rparr>]\<rparr>
     ''S'' 2 False False = [(''chr1'', 100, 250, ''S'', 1)]
   \<and> segments2bed (\<lambda>s p m. [2])
     \<lparr>sample_id = ''S'', has_probes = True,
      rows = [\<lparr>chromosome = ''chr1'', start = 0, end_pos = 100, gene = ''G'', log2 = 0, probes = 5\<rparr>]\<rparr>
     ''S'' 2 False True = [(''chr1'', 0, 100, ''S'', 2)]"
  by (simp add: segments2bed_emits_iff py_round_def)

section \<open>Properties of the rounding and of the VCF encoder\<close>

lemma py_round_nonneg: "0 \<le> v \<Longrightarrow> py_round v = \<lfloor>v + 1 / 2\<rfloor>"
proof -
  assume v: "0 \<le> v"
  show ?thesis
  proof (cases "1 / 2 \<le> v - of_int \<lfloor>v\<rfloor>")
    case True
    then have "\<lfloor>v + 1 / 2\<rfloor> = \<lfloor>v\<rfloor> + 1" by linarith
    with v True show ?thesis by (simp add: py_round_def Let_def)
  next
    case False
    then have "\<lfloor>v + 1 / 2\<rfloor> = \<lfloor>v\<rfloor>" by linarith
    with v False show ?thesis by (simp add: py_round_def Let_def)
  qed
qed

lemma py_round_minus: "py_round (- v) = - py_round v"
  by (cases "v = 0") (auto simp: py_round_def Let_def)

lemma py_round_neg: "v < 0 \<Longrightarrow> py_round v = - \<lfloor>- v + 1 / 2\<rfloor>"
  using py_round_nonneg [of "- v"] py_round_minus [of v] by simp

lemma py_round_half_away: "py_round v = round_half_away_from_zero v"
proof (cases "0 \<le> v")
  case True
  then show ?thesis by (simp add: py_round_nonneg round_half_away_from_zero_def)
next
  case False
  then have n: "v < 0" by simp
  have "\<lceil>v - 1 / 2\<rceil> = - \<lfloor>- v + 1 / 2\<rfloor>" by (simp add: ceiling_def)
  with n show ?thesis by (simp add: py_round_neg round_half_away_from_zero_def)
qed

lemma py_round_nearest: "\<bar>of_int (py_round v) - v\<bar> \<le> 1 / 2"
proof (cases "0 \<le> v")
  case True
  then show ?thesis unfolding py_round_nonneg [OF True] by linarith
next
  case False
  then have n: "v < 0" by simp
  show ?thesis unfolding py_round_neg [OF n] by (simp only: of_int_minus) linarith
qed

lemma py_round_tie_away:
  "\<bar>of_int (py_round v) - v\<bar> = 1 / 2 \<Longrightarrow> \<bar>v\<bar> < \<bar>of_int (py_round v)\<bar>"
proof (cases "0 \<le> v")
  case True
  assume "\<bar>of_int (py_round v) - v\<bar> = 1 / 2"
  then show ?thesis using True unfolding py_round_nonneg [OF True] by linarith
next
  case False
  then have n: "v < 0" by simp
  assume "\<bar>of_int (py_round v) - v\<bar> = 1 / 2"
  then show ?thesis using n unfolding py_round_neg [OF n] by (simp only: of_int_minus) linarith
qed

lemma int_to_double_small: "\<bar>i\<bar> < 2 ^ 53 \<Longrightarrow> int_to_double i = i"
proof -
  assume a: "\<bar>i\<bar> < 2 ^ 53"
  then have "nat \<bar>i\<bar> < 2 ^ 53" by (simp add: nat_less_iff)
  then have "nat_to_double (nat \<bar>i\<bar>) = nat \<bar>i\<bar>" by (simp add: nat_to_double_def)
  then show ?thesis by (cases "i < 0") (simp_all add: int_to_double_def)
qed

lemma fmt_g_converted:
  "\<not> float_overflows i \<Longrightarrow> fmt_g i = Inr (fmt_g_double (int_to_double i))"
  by (simp add: fmt_g_def float_of_int_def)

lemma small_fits: "\<bar>i\<bar> < 2 ^ 53 \<Longrightarrow> \<not> float_overflows i"
proof -
  assume a: "\<bar>i\<bar> < 2 ^ 53"
  have "(2::int) ^ 53 \<le> 2 ^ 1024" by (rule power_increasing) simp_all
  with a int_to_double_small [OF a] show ?thesis by (simp add: float_overflows_def)
qed


lemma segments2vcf_body_records:
  assumes "has_probes segments" and "\<not> float_overflows (probes r)"
  shows "segments2vcf_body segments r v p = Inr (vcf_records_of r (py_round v) p)"
proof -
  note g = fmt_g_converted [OF assms(2)]
  consider "py_round v = p" | "p < py_round v" | "py_round v < p" by linarith
  then show ?thesis
  proof cases
    case 1
    then show ?thesis by (simp add: segments2vcf_body_def vcf_records_of_def)
  next
    case 2
    with assms(1) g show ?thesis
      by (simp add: segments2vcf_body_def vcf_records_of_def row_probes_def Let_def)
  next
    case 3
    with assms(1) show ?thesis
      by (simp add: segments2vcf_body_def vcf_records_of_def row_probes_def Let_def)
  qed
qed

lemma segments2vcf_loop_records:
  assumes "has_probes segments"
    and "\<And>r v. (r, v) \<in> set zs \<Longrightarrow> \<not> float_overflows (probes r)"
  shows "segments2vcf_loop segments zs p =
           (concat (map (\<lambda>(r, v). vcf_records_of r (py_round v) p) zs), None)"
  using assms(2)
proof (induction zs)
  case Nil
  then show ?case by simp
next
  case (Cons z zs)
  obtain r v where z: "z = (r, v)" by (cases z)
  have b: "segments2vcf_body segments r v p = Inr (vcf_records_of r (py_round v) p)"
    using Cons.prems [of r v] z by (intro segments2vcf_body_records [OF assms(1)]) simp
  have "segments2vcf_loop segments zs p =
          (concat (map (\<lambda>(r, v). vcf_records_of r (py_round v) p) zs), None)"
  proof (rule Cons.IH)
    fix r' v' assume "(r', v') \<in> set zs"
    then have "(r', v') \<in> set (z # zs)" by simp
    then show "\<not> float_overflows (probes r')" by (rule Cons.prems)
  qed
  with b z show ?case by simp
qed

lemma segments2vcf_records:
  assumes "has_probes segments"
    and "\<forall>r \<in> set (rows segments). \<not> float_overflows (probes r)"
  shows "segments2vcf absolute_pure segments p male =
           (concat (map (\<lambda>(r, v). vcf_records_of r (py_round v) p)
              (zip (rows segments) (absolute_pure segments p male))), None)"
proof -
  have "\<not> float_overflows (probes r)"
    if "(r, v) \<in> set (zip (rows segments) (absolute_pure segments p male))" for r v
    using set_zip_leftD [OF that] assms(2) by blast
  then show ?thesis
    unfolding segments2vcf_def Let_def by (rule segments2vcf_loop_records [OF assms(1)])
qed

text \<open>
  C1. For a table that carries probe counts (counts that a float can hold), the VCF
  encoder goes through the segments paired with their absolute copy numbers and raises
  nothing; it emits no record for a segment whose rounded absolute copy number equals
  the ploidy, and exactly one record otherwise: a \<open>DUP\<close> record when the rounded value is
  above the ploidy, with \<open>SVLEN = end - start\<close>, format \<open>GT:GQ:CN:CNQ\<close> and genotype
  \<open>0/1:0:{ncopies}:{probes}\<close> (the probe count printed by \<^verbatim>\<open>%g\<close>), and a \<open>DEL\<close> record when
  it is below, with \<open>SVLEN = -(end - start)\<close>, format \<open>GT:GQ\<close> and genotype \<open>1/1:{probes}\<close>
  when the rounded value is 0 and \<open>0/1:{probes}\<close> otherwise. This holds for every ploidy.
\<close>

theorem segments2vcf_classifies:
  assumes "has_probes segments"
    and "\<forall>r \<in> set (rows segments). \<not> float_overflows (probes r)"
  shows "segments2vcf absolute_pure segments p male =
     (concat (map (\<lambda>(r, v).
        if py_round v = p then []
        else if p < py_round v then
          [(chromosome r, max 1 (start r), ''DUP'',
            ''IMPRECISE;SVTYPE=DUP;END='' @ fmt_d (end_pos r)
              @ '';SVLEN='' @ fmt_d (end_pos r - start r),
            ''GT:GQ:CN:CNQ'',
            ''0/1:0:'' @ fmt_d (py_round v) @ '':'' @ fmt_g_double (int_to_double (probes r)))]
        else
          [(chromosome r, max 1 (start r), ''DEL'',
            ''IMPRECISE;SVTYPE=DEL;END='' @ fmt_d (end_pos r)
              @ '';SVLEN='' @ fmt_d (- (end_pos r - start r)),
            ''GT:GQ'',
            (if py_round v = 0 then ''1/1'' else ''0/1'') @ '':'' @ fmt_d (probes r))])
        (zip (rows segments) (absolute_pure segments p male))),
      None)"
  unfolding segments2vcf_records [OF assms] vcf_records_of_def by (rule refl)


theorem segments2vcf_classifies_witness:
  "segments2vcf (\<lambda>s p m. [2, 4, 1, 0])
     \<lparr>sample_id = ''S'', has_probes = True,
      rows = [\<lparr>chromosome = ''chr1'', start = 0, end_pos = 100, gene = ''G'', log2 = 0, probes = 5\<rparr>,
              \<lparr>chromosome = ''chr1'', start = 100, end_pos = 250, gene = ''G'', log2 = 1, probes = 12\<rparr>,
              \<lparr>chromosome = ''chr2'', start = 30, end_pos = 70, gene = ''G'', log2 = - 1, probes = 5\<rparr>,
              \<lparr>chromosome = ''chr2'', start = 70, end_pos = 90, gene = ''G'', log2 = - 9, probes = 3\<rparr>]\<rparr>
     2 False
   = ([(''chr1'', 100, ''DUP'', ''IMPRECISE;SVTYPE=DUP;END=250;SVLEN=150'', ''GT:GQ:CN:CNQ'', ''0/1:0:4:12''),
       (''chr2'', 30, ''DEL'', ''IMPRECISE;SVTYPE=DEL;END=70;SVLEN=-40'', ''GT:GQ'', ''0/1:5''),
       (''chr2'', 70, ''DEL'', ''IMPRECISE;SVTYPE=DEL;END=90;SVLEN=-20'', ''GT:GQ'', ''1/1:3'')],
      None)"
proof -
  let ?S = "\<lparr>sample_id = ''S'', has_probes = True,
      rows = [\<lparr>chromosome = ''chr1'', start = 0, end_pos = 100, gene = ''G'', log2 = 0, probes = 5\<rparr>,
              \<lparr>chromosome = ''chr1'', start = 100, end_pos = 250, gene = ''G'', log2 = 1, probes = 12\<rparr>,
              \<lparr>chromosome = ''chr2'', start = 30, end_pos = 70, gene = ''G'', log2 = - 1, probes = 5\<rparr>,
              \<lparr>chromosome = ''chr2'', start = 70, end_pos = 90, gene = ''G'', log2 = - 9, probes = 3\<rparr>]\<rparr>"
  have hp: "has_probes ?S" by simp
  have fits: "\<forall>r \<in> set (rows ?S). \<not> float_overflows (probes r)"
    by (simp add: small_fits)
  have r: "py_round 2 = 2" "py_round 4 = 4" "py_round 1 = 1" "py_round 0 = 0"
    by (simp_all add: py_round_def)
  have f: "fmt_d 250 = ''250''" "fmt_d 150 = ''150''" "fmt_d 4 = ''4''"
    "fmt_g_double (int_to_double 12) = ''12''"
    "fmt_d 70 = ''70''" "fmt_d (- 40) = ''-40''" "fmt_d 5 = ''5''"
    "fmt_d 90 = ''90''" "fmt_d (- 20) = ''-20''" "fmt_d 3 = ''3''"
    by (simp_all add: fmt_d_def fmt_g_double_def int_to_double_small fmt_g_nat_def digits.simps)
  show ?thesis
    using segments2vcf_classifies [OF hp fits, of "\<lambda>s p m. [2, 4, 1, 0]" 2 False]
    by (simp add: r f)
qed





text \<open>
  C2. Both encoders compute \<open>ncopies\<close> from the absolute copy number by rounding to the
  nearest integer, ties away from zero: the BED encoder emits that number (and compares
  it with the ploidy), the VCF encoder classifies the segment by it (and prints it in
  the genotype of a duplication). It is within one half of the value, and where it is
  exactly one half away it is the neighbour further from zero: 2.5 gives 3 and 1.5
  gives 2.
\<close>

theorem ncopies_round_half_away:
  "segments2bed absolute_pure segments label p male show_neutral =
     map (\<lambda>(r, v). (chromosome r, start r, end_pos r, label, round_half_away_from_zero v))
       (filter (\<lambda>(r, v). show_neutral \<or> round_half_away_from_zero v \<noteq> p)
          (zip (rows segments) (absolute_pure segments p male)))
   \<and> (has_probes segments \<and> (\<forall>r \<in> set (rows segments). \<not> float_overflows (probes r)) \<longrightarrow>
        segments2vcf absolute_pure segments p male =
          (concat (map (\<lambda>(r, v). vcf_records_of r (round_half_away_from_zero v) p)
             (zip (rows segments) (absolute_pure segments p male))), None))
   \<and> \<bar>of_int (round_half_away_from_zero v) - v\<bar> \<le> 1 / 2
   \<and> (\<bar>of_int (round_half_away_from_zero v) - v\<bar> = 1 / 2 \<longrightarrow>
        \<bar>v\<bar> < \<bar>of_int (round_half_away_from_zero v)\<bar>)"
proof -
  have bed: "segments2bed absolute_pure segments label p male show_neutral =
     map (\<lambda>(r, v). (chromosome r, start r, end_pos r, label, round_half_away_from_zero v))
       (filter (\<lambda>(r, v). show_neutral \<or> round_half_away_from_zero v \<noteq> p)
          (zip (rows segments) (absolute_pure segments p male)))"
    by (simp add: segments2bed_def segments2bed_loop_filter py_round_half_away)
  have vcf: "segments2vcf absolute_pure segments p male =
          (concat (map (\<lambda>(r, v). vcf_records_of r (round_half_away_from_zero v) p)
             (zip (rows segments) (absolute_pure segments p male))), None)"
    if "has_probes segments" "\<forall>r \<in> set (rows segments). \<not> float_overflows (probes r)"
    using segments2vcf_records [OF that] by (simp add: py_round_half_away)
  from bed vcf py_round_nearest [of v] py_round_tie_away [of v] show ?thesis
    by (simp add: py_round_half_away)
qed

theorem ncopies_round_half_away_witness:
  "segments2bed (\<lambda>s p m. [5 / 2, 3 / 2])
     \<lparr>sample_id = ''S'', has_probes = True,
      rows = [\<lparr>chromosome = ''chr1'', start = 0, end_pos = 100, gene = ''G'', log2 = 0, probes = 5\<rparr>,
              \<lparr>chromosome = ''chr1'', start = 100, end_pos = 250, gene = ''G'', log2 = 0, probes = 7\<rparr>]\<rparr>
     ''S'' 2 False True
   = [(''chr1'', 0, 100, ''S'', 3), (''chr1'', 100, 250, ''S'', 2)]
   \<and> segments2vcf (\<lambda>s p m. [5 / 2, 3 / 2])
     \<lparr>sample_id = ''S'', has_probes = True,
      rows = [\<lparr>chromosome = ''chr1'', start = 0, end_pos = 100, gene = ''G'', log2 = 0, probes = 5\<rparr>,
              \<lparr>chromosome = ''chr1'', start = 100, end_pos = 250, gene = ''G'', log2 = 0, probes = 7\<rparr>]\<rparr>
     2 False
   = ([(''chr1'', 1, ''DUP'', ''IMPRECISE;SVTYPE=DUP;END=100;SVLEN=100'', ''GT:GQ:CN:CNQ'', ''0/1:0:3:5'')],
      None)
   \<and> \<bar>of_int (round_half_away_from_zero (5 / 2)) - 5 / 2\<bar> = (1 / 2 :: real)
   \<and> \<bar>5 / 2 :: real\<bar> < \<bar>of_int (round_half_away_from_zero (5 / 2))\<bar>"
proof -
  let ?S = "\<lparr>sample_id = ''S'', has_probes = True,
      rows = [\<lparr>chromosome = ''chr1'', start = 0, end_pos = 100, gene = ''G'', log2 = 0, probes = 5\<rparr>,
              \<lparr>chromosome = ''chr1'', start = 100, end_pos = 250, gene = ''G'', log2 = 0, probes = 7\<rparr>]\<rparr>"
  have hp: "has_probes ?S \<and> (\<forall>r \<in> set (rows ?S). \<not> float_overflows (probes r))"
    by (simp add: small_fits)
  have t: "round_half_away_from_zero (5 / 2) = 3" "round_half_away_from_zero (3 / 2) = 2"
    by (simp_all add: round_half_away_from_zero_def)
  have f: "fmt_d 100 = ''100''" "fmt_d 3 = ''3''" "fmt_g_double (int_to_double 5) = ''5''"
    by (simp_all add: fmt_d_def fmt_g_double_def int_to_double_small fmt_g_nat_def digits.simps)
  have tie: "\<bar>of_int (round_half_away_from_zero (5 / 2)) - 5 / 2\<bar> = (1 / 2 :: real)"
    by (simp add: t)
  show ?thesis
    using ncopies_round_half_away [of "\<lambda>s p m. [5 / 2, 3 / 2]" ?S "''S''" 2 False True "5 / 2"] hp tie
    by (simp add: t f vcf_records_of_def)
qed

section \<open>Properties of the SEG encoder\<close>

lemma create_chrom_ids_loop_keys:
  "fst ` set (create_chrom_ids_loop cs mapping i) = fst ` set mapping \<union> set cs"
  by (induction cs mapping i rule: create_chrom_ids_loop.induct) auto

lemma create_chrom_ids_keys: "fst ` set (create_chrom_ids segments) = chrom_names segments"
  by (simp add: create_chrom_ids_def chrom_names_def create_chrom_ids_loop_keys)

lemma chrom_id_of_key:
  "key \<in> fst ` set ids \<Longrightarrow> chrom_id_of ids key = Inr (the (map_of ids key))"
proof -
  assume "key \<in> fst ` set ids"
  then have "map_of ids key \<noteq> None" by (simp add: map_of_eq_None_iff)
  then show ?thesis by (auto simp: chrom_id_of_def)
qed

lemma collect_map:
  "(\<And>x. x \<in> set xs \<Longrightarrow> f x = Inr (g x)) \<Longrightarrow> collect f xs = Inr (map g xs)"
  by (induction xs) auto

lemma seg_rows_with_probes:
  assumes "chrom_names segments \<subseteq> fst ` set ids" and "has_probes segments"
  shows "collect (\<lambda>r. case chrom_id_of ids (chromosome r) of
                        Inl e \<Rightarrow> Inl e
                      | Inr cid \<Rightarrow>
                          Inr [S (sample_id segments), I cid, I (start r), I (end_pos r),
                               I (probes r), R (log2 r)])
           (rows segments)
         = Inr (map (seg_values ids segments) (rows segments))"
proof (rule collect_map)
  fix r assume "r \<in> set (rows segments)"
  then have "chromosome r \<in> fst ` set ids"
    using assms(1) by (auto simp: chrom_names_def)
  then show "(case chrom_id_of ids (chromosome r) of
                Inl e \<Rightarrow> Inl e
              | Inr cid \<Rightarrow>
                  Inr [S (sample_id segments), I cid, I (start r), I (end_pos r),
                       I (probes r), R (log2 r)])
             = Inr (seg_values ids segments r)"
    using assms(2) by (simp add: chrom_id_of_key seg_values_def)
qed

lemma seg_rows_without_probes:
  assumes "chrom_names segments \<subseteq> fst ` set ids" and "\<not> has_probes segments"
  shows "collect (\<lambda>r. case chrom_id_of ids (chromosome r) of
                        Inl e \<Rightarrow> Inl e
                      | Inr cid \<Rightarrow>
                          Inr [S (sample_id segments), I cid, I (start r), I (end_pos r),
                               R (log2 r)])
           (rows segments)
         = Inr (map (seg_values ids segments) (rows segments))"
proof (rule collect_map)
  fix r assume "r \<in> set (rows segments)"
  then have "chromosome r \<in> fst ` set ids"
    using assms(1) by (auto simp: chrom_names_def)
  then show "(case chrom_id_of ids (chromosome r) of
                Inl e \<Rightarrow> Inl e
              | Inr cid \<Rightarrow>
                  Inr [S (sample_id segments), I cid, I (start r), I (end_pos r),
                       R (log2 r)])
             = Inr (seg_values ids segments r)"
    using assms(2) by (simp add: chrom_id_of_key seg_values_def)
qed

lemma export_seg_step:
  assumes "chrom_names segments = fst ` set ids"
  shows "export_seg_loop (segments # rest) outrows (Some ids) h =
         export_seg_loop rest (outrows @ map (seg_values ids segments) (rows segments))
           (Some ids) (Some (seg_columns (has_probes segments)))"
proof -
  have c: "chrom_names segments \<subseteq> fst ` set ids" using assms by simp
  have a: "assert_equal ''Segment chromosome names differ''
             (map fst ids) (map fst (create_chrom_ids segments)) = Inr ()"
    using assms create_chrom_ids_keys [of segments] by (simp add: assert_equal_def)
  show ?thesis
  proof (cases "has_probes segments")
    case True
    then show ?thesis
      using seg_rows_with_probes [OF c True] a by (simp add: seg_columns_def)
  next
    case False
    then show ?thesis
      using seg_rows_without_probes [OF c False] a by (simp add: seg_columns_def)
  qed
qed

lemma export_seg_step_mismatch:
  assumes "chrom_names segments \<noteq> fst ` set ids"
  shows "export_seg_loop (segments # rest) outrows (Some ids) h =
         Inl (ChromosomeSetMismatch ''Segment chromosome names differ'')"
proof -
  have "assert_equal ''Segment chromosome names differ''
             (map fst ids) (map fst (create_chrom_ids segments))
        = Inl (ChromosomeSetMismatch ''Segment chromosome names differ'')"
    using assms create_chrom_ids_keys [of segments] by (auto simp: assert_equal_def)
  then show ?thesis by simp
qed

lemma export_seg_first:
  "export_seg_loop (segments # rest) [] None None =
   export_seg_loop rest (map (seg_values (create_chrom_ids segments) segments) (rows segments))
     (Some (create_chrom_ids segments)) (Some (seg_columns (has_probes segments)))"
proof -
  have c: "chrom_names segments \<subseteq> fst ` set (create_chrom_ids segments)"
    by (simp add: create_chrom_ids_keys)
  show ?thesis
  proof (cases "has_probes segments")
    case True
    then show ?thesis
      using seg_rows_with_probes [OF c True] by (simp add: seg_columns_def)
  next
    case False
    then show ?thesis
      using seg_rows_without_probes [OF c False] by (simp add: seg_columns_def)
  qed
qed

lemma export_seg_loop_result:
  "export_seg_loop ss outrows (Some ids) (Some h) =
     (if \<forall>s \<in> set ss. chrom_names s = fst ` set ids
      then Inr (Some (if ss = [] then h else seg_columns (has_probes (last ss))),
                outrows @ concat (map (\<lambda>s. map (seg_values ids s) (rows s)) ss))
      else Inl (ChromosomeSetMismatch ''Segment chromosome names differ''))"
proof (induction ss arbitrary: outrows h)
  case Nil
  then show ?case by simp
next
  case (Cons s ss)
  show ?case
  proof (cases "chrom_names s = fst ` set ids")
    case True
    then show ?thesis
      by (simp only: export_seg_step [OF True] Cons.IH) auto
  next
    case False
    then show ?thesis by (simp only: export_seg_step_mismatch [OF False]) auto
  qed
qed

lemma export_seg_result:
  "export_seg (s # ss) =
     (if \<forall>t \<in> set ss. chrom_names t = chrom_names s
      then Inr (seg_columns (has_probes (last (s # ss))),
                concat (map (\<lambda>t. map (seg_values (create_chrom_ids s) t) (rows t)) (s # ss)))
      else Inl (ChromosomeSetMismatch ''Segment chromosome names differ''))"
  unfolding export_seg_def export_seg_first export_seg_loop_result
  by (simp add: create_chrom_ids_keys)

text \<open>
  C5. A SEG export over at least one sample fails if and only if some sample after the
  first has a set of chromosome names that differs from the first sample's, and it then
  fails with the chromosome set mismatch. The order in which the names first appear plays
  no part: two samples with the same names in a different first-seen order pass.
\<close>

theorem export_seg_fails_iff:
  assumes "samples \<noteq> []"
  shows "((\<exists>e. export_seg samples = Inl e) \<longleftrightarrow>
            (\<exists>s \<in> set (tl samples). chrom_names s \<noteq> chrom_names (hd samples)))
       \<and> (\<forall>e. export_seg samples = Inl e \<longrightarrow>
            e = ChromosomeSetMismatch ''Segment chromosome names differ'')"
proof -
  from assms obtain s ss where "samples = s # ss" by (cases samples) auto
  then show ?thesis by (auto simp: export_seg_result)
qed

text \<open>
  C10. When \<^verbatim>\<open>export_seg\<close> returns, there was at least one sample, the header is the one
  of the last sample (six columns, with \<open>NumProbes\<close>, if and only if that sample carries
  probe counts), and the rows are those of the samples in order, the rows of each sample
  holding a probe count if and only if that sample carries them: rows of width 6 and 5 are
  mixed under one header when the samples differ.
\<close>

theorem export_seg_header_last:
  assumes "export_seg samples = Inr (outheader, outrows)"
  shows "samples \<noteq> []
       \<and> outheader = seg_columns (has_probes (last samples))
       \<and> outrows = concat (map (\<lambda>s. map (seg_values (create_chrom_ids (hd samples)) s) (rows s)) samples)
       \<and> (\<forall>s \<in> set samples. \<forall>r \<in> set (rows s).
            length (seg_values (create_chrom_ids (hd samples)) s r) = (if has_probes s then 6 else 5))
       \<and> length outheader = (if has_probes (last samples) then 6 else 5)"
proof (cases samples)
  case Nil
  with assms show ?thesis by (simp add: export_seg_def)
next
  case (Cons s ss)
  with assms show ?thesis
    by (auto simp: export_seg_result seg_values_def seg_columns_def split: if_splits)
qed


theorem export_seg_fails_iff_witness:
  "create_chrom_ids \<lparr>sample_id = ''A'', has_probes = True,
       rows = [\<lparr>chromosome = ''chr1'', start = 0, end_pos = 100, gene = ''G'', log2 = 0, probes = 5\<rparr>,
               \<lparr>chromosome = ''chr2'', start = 0, end_pos = 80, gene = ''G'', log2 = 1, probes = 4\<rparr>]\<rparr>
     = [(''chr1'', 1), (''chr2'', 2)]
   \<and> create_chrom_ids \<lparr>sample_id = ''B'', has_probes = True,
       rows = [\<lparr>chromosome = ''chr2'', start = 0, end_pos = 60, gene = ''G'', log2 = 0, probes = 3\<rparr>,
               \<lparr>chromosome = ''chr1'', start = 0, end_pos = 90, gene = ''G'', log2 = 1, probes = 2\<rparr>]\<rparr>
     = [(''chr2'', 1), (''chr1'', 2)]
   \<and> \<not> (\<exists>e. export_seg
       [\<lparr>sample_id = ''A'', has_probes = True,
         rows = [\<lparr>chromosome = ''chr1'', start = 0, end_pos = 100, gene = ''G'', log2 = 0, probes = 5\<rparr>,
                 \<lparr>chromosome = ''chr2'', start = 0, end_pos = 80, gene = ''G'', log2 = 1, probes = 4\<rparr>]\<rparr>,
        \<lparr>sample_id = ''B'', has_probes = True,
         rows = [\<lparr>chromosome = ''chr2'', start = 0, end_pos = 60, gene = ''G'', log2 = 0, probes = 3\<rparr>,
                 \<lparr>chromosome = ''chr1'', start = 0, end_pos = 90, gene = ''G'', log2 = 1, probes = 2\<rparr>]\<rparr>]
       = Inl e)
   \<and> (\<exists>e. export_seg
       [\<lparr>sample_id = ''A'', has_probes = True,
         rows = [\<lparr>chromosome = ''chr1'', start = 0, end_pos = 100, gene = ''G'', log2 = 0, probes = 5\<rparr>,
                 \<lparr>chromosome = ''chr2'', start = 0, end_pos = 80, gene = ''G'', log2 = 1, probes = 4\<rparr>]\<rparr>,
        \<lparr>sample_id = ''C'', has_probes = True,
         rows = [\<lparr>chromosome = ''chr1'', start = 0, end_pos = 90, gene = ''G'', log2 = 1, probes = 2\<rparr>]\<rparr>]
       = Inl e)"
proof -
  let ?A = "\<lparr>sample_id = ''A'', has_probes = True,
         rows = [\<lparr>chromosome = ''chr1'', start = 0, end_pos = 100, gene = ''G'', log2 = 0, probes = 5\<rparr>,
                 \<lparr>chromosome = ''chr2'', start = 0, end_pos = 80, gene = ''G'', log2 = 1, probes = 4\<rparr>]\<rparr>"
  let ?B = "\<lparr>sample_id = ''B'', has_probes = True,
         rows = [\<lparr>chromosome = ''chr2'', start = 0, end_pos = 60, gene = ''G'', log2 = 0, probes = 3\<rparr>,
                 \<lparr>chromosome = ''chr1'', start = 0, end_pos = 90, gene = ''G'', log2 = 1, probes = 2\<rparr>]\<rparr>"
  let ?C = "\<lparr>sample_id = ''C'', has_probes = True,
         rows = [\<lparr>chromosome = ''chr1'', start = 0, end_pos = 90, gene = ''G'', log2 = 1, probes = 2\<rparr>]\<rparr>"
  have ne: "[?A, ?B] \<noteq> []" "[?A, ?C] \<noteq> []" by simp_all
  have ids: "create_chrom_ids ?A = [(''chr1'', 1), (''chr2'', 2)]"
    "create_chrom_ids ?B = [(''chr2'', 1), (''chr1'', 2)]"
    by (simp_all add: create_chrom_ids_def)
  have same: "chrom_names ?B = chrom_names ?A" by (auto simp: chrom_names_def)
  have diff: "chrom_names ?C \<noteq> chrom_names ?A" by (auto simp: chrom_names_def)
  have "\<not> (\<exists>e. export_seg [?A, ?B] = Inl e)"
    using export_seg_fails_iff [OF ne(1)] same by simp
  moreover have "\<exists>e. export_seg [?A, ?C] = Inl e"
    using export_seg_fails_iff [OF ne(2)] diff by simp
  ultimately show ?thesis using ids by simp
qed

theorem export_seg_header_last_witness:
  "export_seg
     [\<lparr>sample_id = ''A'', has_probes = True,
       rows = [\<lparr>chromosome = ''chr1'', start = 0, end_pos = 100, gene = ''G'', log2 = 0, probes = 5\<rparr>]\<rparr>,
      \<lparr>sample_id = ''D'', has_probes = False,
       rows = [\<lparr>chromosome = ''chr1'', start = 0, end_pos = 50, gene = ''G'', log2 = 1, probes = 0\<rparr>]\<rparr>]
   = Inr ([''ID'', ''Chromosome'', ''Start'', ''End'', ''Mean''],
          [[S ''A'', I 1, I 0, I 100, I 5, R 0], [S ''D'', I 1, I 0, I 50, R 1]])
   \<and> length [''ID'', ''Chromosome'', ''Start'', ''End'', ''Mean''] = 5
   \<and> length [S ''A'', I 1, I 0, I 100, I 5, R 0] = 6"
proof -
  let ?A = "\<lparr>sample_id = ''A'', has_probes = True,
       rows = [\<lparr>chromosome = ''chr1'', start = 0, end_pos = 100, gene = ''G'', log2 = 0, probes = 5\<rparr>]\<rparr>"
  let ?D = "\<lparr>sample_id = ''D'', has_probes = False,
       rows = [\<lparr>chromosome = ''chr1'', start = 0, end_pos = 50, gene = ''G'', log2 = 1, probes = 0\<rparr>]\<rparr>"
  have e: "export_seg [?A, ?D]
     = Inr ([''ID'', ''Chromosome'', ''Start'', ''End'', ''Mean''],
            [[S ''A'', I 1, I 0, I 100, I 5, R 0], [S ''D'', I 1, I 0, I 50, R 1]])"
    by (simp add: export_seg_def create_chrom_ids_def assert_equal_def chrom_id_of_def)
  have "length [''ID'', ''Chromosome'', ''Start'', ''End'', ''Mean''] = (if has_probes (last [?A, ?D]) then 6 else 5)"
    using export_seg_header_last [OF e] by blast
  with e show ?thesis by simp
qed

section \<open>Properties of the merge\<close>

lemma take5_fields:
  assumes "take 5 r = [a, b, c, d, e]"
  shows "r ! 0 = a" "r ! 1 = b" "r ! 2 = c" "r ! 3 = d" "r ! 4 = e"
proof -
  have n: "(take 5 r) ! i = r ! i" if "i < 5" for i using that by simp
  show "r ! 0 = a" using n [of 0] assms by simp
  show "r ! 1 = b" using n [of 1] assms by simp
  show "r ! 2 = c" using n [of 2] assms by simp
  show "r ! 3 = d" using n [of 3] assms by simp
  show "r ! 4 = e" using n [of 4] assms by simp
qed

lemma row_to_probe_coverage_Inr:
  assumes "row_to_probe_coverage py_int py_float r = Inr x"
  shows "x = (ProbeInfo (derived_label r) (r ! 0) (the (py_int (r ! 1))) (the (py_int (r ! 2))) (r ! 3),
              the (py_float (r ! 4)))"
proof -
  from assms obtain a b c d e where t: "take 5 r = [a, b, c, d, e]"
    by (auto simp: row_to_probe_coverage_def split: list.splits)
  note f = take5_fields [OF t]
  have f': "r ! Suc 0 = b" using f(2) by simp
  from assms t show ?thesis
    by (auto simp: row_to_probe_coverage_def derived_label_def f f' Let_def split: option.splits)
qed

text \<open>
  C4. For a tuple of at least one row in which every row converts (five fields or more,
  numeric coordinates and coverage), \<^verbatim>\<open>merge_rows\<close> raises the identity mismatch naming
  \<open>probe Name\<close> if and only if two of the rows have different derived labels
  \<open>chrom:start-end:gene\<close>; when all the labels are equal it returns the shared probe
  info followed by the coverages of the rows, in the order of the rows.
\<close>

theorem merge_rows_identity:
  assumes "rows' \<noteq> []"
    and "\<forall>r \<in> set rows'. \<exists>x. row_to_probe_coverage py_int py_float r = Inr x"
  shows "(merge_rows py_int py_float rows' = Inl (IdentityMismatch ''probe Name'') \<longleftrightarrow>
            (\<exists>r1 \<in> set rows'. \<exists>r2 \<in> set rows'. derived_label r1 \<noteq> derived_label r2))
       \<and> ((\<forall>r1 \<in> set rows'. \<forall>r2 \<in> set rows'. derived_label r1 = derived_label r2) \<longrightarrow>
            merge_rows py_int py_float rows' =
              Inr (Probe (ProbeInfo (derived_label (hd rows')) (hd rows' ! 0)
                            (the (py_int (hd rows' ! 1))) (the (py_int (hd rows' ! 2)))
                            (hd rows' ! 3))
                   # map (\<lambda>r. Coverage (the (py_float (r ! 4)))) rows'))"
proof -
  define g where "g = (\<lambda>r. (ProbeInfo (derived_label r) (r ! 0) (the (py_int (r ! 1)))
      (the (py_int (r ! 2))) (r ! 3), the (py_float (r ! 4))))"
  have lab: "probe_label (fst (g r)) = derived_label r" for r by (simp add: g_def)
  have cov: "snd (g r) = the (py_float (r ! 4))" for r by (simp add: g_def)
  have "row_to_probe_coverage py_int py_float r = Inr (g r)" if "r \<in> set rows'" for r
  proof -
    from assms(2) that obtain x where x: "row_to_probe_coverage py_int py_float r = Inr x" by blast
    from row_to_probe_coverage_Inr [OF x] x show ?thesis by (simp only: g_def)
  qed
  then have c: "collect (row_to_probe_coverage py_int py_float) rows' = Inr (map g rows')"
    by (rule collect_map)
  have ne: "map g rows' \<noteq> []" using assms(1) by simp
  have h: "hd (map fst (map g rows')) = fst (g (hd rows'))"
    using assms(1) by (simp only: hd_map map_is_Nil_conv not_False_eq_True)
  have q: "(\<forall>x \<in> set (map fst (map g rows')). \<forall>y \<in> set (map fst (map g rows')).
              probe_label x = probe_label y)
           \<longleftrightarrow> (\<forall>r1 \<in> set rows'. \<forall>r2 \<in> set rows'. derived_label r1 = derived_label r2)"
    by (simp add: lab)
  have u: "check_unique (map fst (map g rows')) ''probe Name'' =
      (if \<forall>r1 \<in> set rows'. \<forall>r2 \<in> set rows'. derived_label r1 = derived_label r2
       then Inr (fst (g (hd rows'))) else Inl (IdentityMismatch ''probe Name''))"
    unfolding check_unique_def q h by (rule refl)
  have cs: "map Coverage (map snd (map g rows')) = map (\<lambda>r. Coverage (the (py_float (r ! 4)))) rows'"
    by (simp add: cov)
  have m: "merge_rows py_int py_float rows' =
      (if \<forall>r1 \<in> set rows'. \<forall>r2 \<in> set rows'. derived_label r1 = derived_label r2
       then Inr (Probe (fst (g (hd rows'))) # map (\<lambda>r. Coverage (the (py_float (r ! 4)))) rows')
       else Inl (IdentityMismatch ''probe Name''))"
  proof -
    have mr: "merge_rows py_int py_float rows' =
        (case check_unique (map fst (map g rows')) ''probe Name'' of
           Inl e \<Rightarrow> Inl e
         | Inr probe_info \<Rightarrow> Inr ([Probe probe_info] @ map Coverage (map snd (map g rows'))))"
      unfolding merge_rows_def c Let_def by (simp only: sum.case ne if_False)
    show ?thesis
    proof (cases "\<forall>r1 \<in> set rows'. \<forall>r2 \<in> set rows'. derived_label r1 = derived_label r2")
      case True
      show ?thesis unfolding mr u cs if_P [OF True] by (simp only: sum.case append_Cons append_Nil)
    next
      case False
      show ?thesis unfolding mr u if_not_P [OF False] by (simp only: sum.case)
    qed
  qed
  have p: "fst (g (hd rows')) = ProbeInfo (derived_label (hd rows')) (hd rows' ! 0)
                            (the (py_int (hd rows' ! 1))) (the (py_int (hd rows' ! 2)))
                            (hd rows' ! 3)"
    by (simp only: g_def fst_conv)
  show ?thesis
  proof (cases "\<forall>r1 \<in> set rows'. \<forall>r2 \<in> set rows'. derived_label r1 = derived_label r2")
    case True
    have e: "merge_rows py_int py_float rows' =
              Inr (Probe (ProbeInfo (derived_label (hd rows')) (hd rows' ! 0)
                            (the (py_int (hd rows' ! 1))) (the (py_int (hd rows' ! 2)))
                            (hd rows' ! 3))
                   # map (\<lambda>r. Coverage (the (py_float (r ! 4)))) rows')"
      unfolding m p if_P [OF True] by (rule refl)
    have n: "\<not> (\<exists>r1 \<in> set rows'. \<exists>r2 \<in> set rows'. derived_label r1 \<noteq> derived_label r2)"
      using True by blast
    show ?thesis unfolding e using n True by blast
  next
    case False
    have e: "merge_rows py_int py_float rows' = Inl (IdentityMismatch ''probe Name'')"
      unfolding m if_not_P [OF False] by (rule refl)
    have n: "\<exists>r1 \<in> set rows'. \<exists>r2 \<in> set rows'. derived_label r1 \<noteq> derived_label r2"
      using False by blast
    show ?thesis unfolding e using n False by blast
  qed
qed


theorem merge_rows_identity_witness:
  "merge_rows
     (\<lambda>s. if s = ''0'' then Some 0 else if s = ''100'' then Some 100 else None)
     (\<lambda>s. if s = ''1.0'' then Some 1 else if s = ''-2.0'' then Some (- 2) else None)
     [[''chr1'', ''0'', ''100'', ''G'', ''1.0''], [''chr1'', ''0'', ''100'', ''G'', ''-2.0'']]
   = Inr [Probe (ProbeInfo ''chr1:0-100:G'' ''chr1'' 0 100 ''G''), Coverage 1, Coverage (- 2)]
   \<and> merge_rows
     (\<lambda>s. if s = ''0'' then Some 0 else if s = ''100'' then Some 100 else None)
     (\<lambda>s. if s = ''1.0'' then Some 1 else if s = ''-2.0'' then Some (- 2) else None)
     [[''chr1'', ''0'', ''100'', ''G'', ''1.0''], [''chr2'', ''0'', ''100'', ''G'', ''-2.0'']]
   = Inl (IdentityMismatch ''probe Name'')"
proof -
  let ?pi = "\<lambda>s. if s = ''0'' then Some (0::int) else if s = ''100'' then Some 100 else None"
  let ?pf = "\<lambda>s. if s = ''1.0'' then Some (1 :: real) else if s = ''-2.0'' then Some (- 2) else None"
  let ?A = "[[''chr1'', ''0'', ''100'', ''G'', ''1.0''], [''chr1'', ''0'', ''100'', ''G'', ''-2.0'']]"
  let ?B = "[[''chr1'', ''0'', ''100'', ''G'', ''1.0''], [''chr2'', ''0'', ''100'', ''G'', ''-2.0'']]"
  have neA: "?A \<noteq> []" and neB: "?B \<noteq> []" by simp_all
  have pA: "\<forall>r \<in> set ?A. \<exists>x. row_to_probe_coverage ?pi ?pf r = Inr x"
    by (simp add: row_to_probe_coverage_def)
  have pB: "\<forall>r \<in> set ?B. \<exists>x. row_to_probe_coverage ?pi ?pf r = Inr x"
    by (simp add: row_to_probe_coverage_def)
  have lA: "\<forall>r1 \<in> set ?A. \<forall>r2 \<in> set ?A. derived_label r1 = derived_label r2"
    by (simp add: derived_label_def)
  have lB: "\<exists>r1 \<in> set ?B. \<exists>r2 \<in> set ?B. derived_label r1 \<noteq> derived_label r2"
    by (auto simp: derived_label_def)
  have "merge_rows ?pi ?pf ?A =
      Inr (Probe (ProbeInfo (derived_label (hd ?A)) (hd ?A ! 0) (the (?pi (hd ?A ! 1)))
                   (the (?pi (hd ?A ! 2))) (hd ?A ! 3))
           # map (\<lambda>r. Coverage (the (?pf (r ! 4)))) ?A)"
    using merge_rows_identity [OF neA pA] lA by blast
  then have a: "merge_rows ?pi ?pf ?A =
      Inr [Probe (ProbeInfo ''chr1:0-100:G'' ''chr1'' 0 100 ''G''), Coverage 1, Coverage (- 2)]"
    by (simp add: derived_label_def)
  have b: "merge_rows ?pi ?pf ?B = Inl (IdentityMismatch ''probe Name'')"
    using merge_rows_identity [OF neB pB] lB by blast
  from a b show ?thesis by (rule conjI)
qed

lemma open_all_handles:
  "open_all files fnames st = (st', None) \<Longrightarrow> (\<forall>f \<in> set fnames. files f \<noteq> None)
     \<and> handles st' = handles st @ map (\<lambda>f. (f, True)) fnames"
  by (induction fnames arbitrary: st) (auto split: option.splits)

lemma open_all_ok:
  "\<forall>f \<in> set fnames. files f \<noteq> None \<Longrightarrow> \<exists>st'. open_all files fnames st = (st', None)"
  by (induction fnames arbitrary: st) auto

lemma merge_loop_handles:
  "merge_loop py_int py_float tuples demand hs = (out, oc, hs') \<Longrightarrow>
   hs' = (if oc = Exhausted then close_all hs else hs)"
  by (induction py_int py_float tuples demand hs arbitrary: out oc hs' rule: merge_loop.induct)
    (auto split: sum.splits prod.splits)

lemma close_all_opened:
  "close_all (map (\<lambda>f. (f, True)) fnames) = map (\<lambda>f. (f, False)) fnames"
  by (simp add: close_all_def)

text \<open>
  C7. What \<^verbatim>\<open>merge_samples\<close> does with the handles it opened, for a caller who asks for
  at least one item and files that all open: they are all closed when the generator ran
  to its end, and they are all still open when an exception left it or the caller
  dropped it before the end. The clean-up after the loop is the only place that closes
  a handle, and only the normal end of the loop reaches it.
\<close>

theorem merge_samples_handles:
  assumes "merge_samples files py_int py_float filenames demand = (out, oc, hs)"
    and "demand \<noteq> Some 0"
    and "\<forall>f \<in> set filenames. files f \<noteq> None"
  shows "(oc = Exhausted \<longrightarrow> hs = map (\<lambda>f. (f, False)) filenames)
       \<and> (oc \<noteq> Exhausted \<longrightarrow> hs = map (\<lambda>f. (f, True)) filenames)"
proof -
  from open_all_ok [OF assms(3)] obtain st where
    o: "open_all files filenames \<lparr>handles = [], datastreams = []\<rparr> = (st, None)" by blast
  from open_all_handles [OF o] have h: "handles st = map (\<lambda>f. (f, True)) filenames" by simp
  from assms(1) assms(2) o have
    "merge_loop py_int py_float (py_zip (datastreams st)) demand (handles st) = (out, oc, hs)"
    by (simp add: merge_samples_def)
  from merge_loop_handles [OF this] show ?thesis
    by (simp add: h close_all_opened)
qed


theorem merge_samples_handles_witness:
  "merge_samples
     (\<lambda>f. if f = ''a.cnr'' then Some [[''chr1'', ''0'', ''100'', ''G'', ''1.0''],
                                        [''chr1'', ''100'', ''200'', ''G'', ''1.0'']]
          else if f = ''b.cnr'' then Some [[''chr1'', ''0'', ''100'', ''G'', ''-2.0''],
                                            [''chr2'', ''100'', ''200'', ''G'', ''-2.0'']]
          else None)
     (\<lambda>s. if s = ''0'' then Some 0 else if s = ''100'' then Some 100
          else if s = ''200'' then Some 200 else None)
     (\<lambda>s. if s = ''1.0'' then Some 1 else if s = ''-2.0'' then Some (- 2) else None)
     [''a.cnr'', ''b.cnr''] None
   = ([[Probe (ProbeInfo ''chr1:0-100:G'' ''chr1'' 0 100 ''G''), Coverage 1, Coverage (- 2)]],
      Raised (IdentityMismatch ''probe Name''),
      [(''a.cnr'', True), (''b.cnr'', True)])
   \<and> merge_samples
     (\<lambda>f. if f = ''a.cnr'' then Some [[''chr1'', ''0'', ''100'', ''G'', ''1.0''],
                                        [''chr1'', ''100'', ''200'', ''G'', ''1.0'']]
          else if f = ''b.cnr'' then Some [[''chr1'', ''0'', ''100'', ''G'', ''-2.0''],
                                            [''chr2'', ''100'', ''200'', ''G'', ''-2.0'']]
          else None)
     (\<lambda>s. if s = ''0'' then Some 0 else if s = ''100'' then Some 100
          else if s = ''200'' then Some 200 else None)
     (\<lambda>s. if s = ''1.0'' then Some 1 else if s = ''-2.0'' then Some (- 2) else None)
     [''a.cnr'', ''b.cnr''] (Some 1)
   = ([[Probe (ProbeInfo ''chr1:0-100:G'' ''chr1'' 0 100 ''G''), Coverage 1, Coverage (- 2)]],
      Abandoned,
      [(''a.cnr'', True), (''b.cnr'', True)])
   \<and> merge_samples
     (\<lambda>f. if f = ''a.cnr'' then Some [[''chr1'', ''0'', ''100'', ''G'', ''1.0'']]
          else if f = ''b.cnr'' then Some [[''chr1'', ''0'', ''100'', ''G'', ''-2.0'']]
          else None)
     (\<lambda>s. if s = ''0'' then Some 0 else if s = ''100'' then Some 100
          else if s = ''200'' then Some 200 else None)
     (\<lambda>s. if s = ''1.0'' then Some 1 else if s = ''-2.0'' then Some (- 2) else None)
     [''a.cnr'', ''b.cnr''] None
   = ([[Probe (ProbeInfo ''chr1:0-100:G'' ''chr1'' 0 100 ''G''), Coverage 1, Coverage (- 2)]],
      Exhausted,
      [(''a.cnr'', False), (''b.cnr'', False)])"
proof -
  let ?files = "\<lambda>f. if f = ''a.cnr'' then Some [[''chr1'', ''0'', ''100'', ''G'', ''1.0''],
                                        [''chr1'', ''100'', ''200'', ''G'', ''1.0'']]
          else if f = ''b.cnr'' then Some [[''chr1'', ''0'', ''100'', ''G'', ''-2.0''],
                                            [''chr2'', ''100'', ''200'', ''G'', ''-2.0'']]
          else None"
  let ?good = "\<lambda>f. if f = ''a.cnr'' then Some [[''chr1'', ''0'', ''100'', ''G'', ''1.0'']]
          else if f = ''b.cnr'' then Some [[''chr1'', ''0'', ''100'', ''G'', ''-2.0'']]
          else None"
  let ?pi = "\<lambda>s. if s = ''0'' then Some (0::int) else if s = ''100'' then Some 100
          else if s = ''200'' then Some 200 else None"
  let ?pf = "\<lambda>s. if s = ''1.0'' then Some (1::real) else if s = ''-2.0'' then Some (- 2) else None"
  let ?m = "[Probe (ProbeInfo ''chr1:0-100:G'' ''chr1'' 0 100 ''G''), Coverage 1, Coverage (- 2)]"
  have z: "py_zip [[[''chr1'', ''0'', ''100'', ''G'', ''1.0''], [''chr1'', ''100'', ''200'', ''G'', ''1.0'']],
                   [[''chr1'', ''0'', ''100'', ''G'', ''-2.0''], [''chr2'', ''100'', ''200'', ''G'', ''-2.0'']]]
      = [[[''chr1'', ''0'', ''100'', ''G'', ''1.0''], [''chr1'', ''0'', ''100'', ''G'', ''-2.0'']],
         [[''chr1'', ''100'', ''200'', ''G'', ''1.0''], [''chr2'', ''100'', ''200'', ''G'', ''-2.0'']]]"
    by (simp add: py_zip.simps)
  have z': "py_zip [[[''chr1'', ''0'', ''100'', ''G'', ''1.0'']], [[''chr1'', ''0'', ''100'', ''G'', ''-2.0'']]]
      = [[[''chr1'', ''0'', ''100'', ''G'', ''1.0''], [''chr1'', ''0'', ''100'', ''G'', ''-2.0'']]]"
    by (simp add: py_zip.simps)
  have r1: "merge_rows ?pi ?pf [[''chr1'', ''0'', ''100'', ''G'', ''1.0''], [''chr1'', ''0'', ''100'', ''G'', ''-2.0'']]
      = Inr ?m"
    by (simp add: merge_rows_def row_to_probe_coverage_def check_unique_def)
  have r2: "merge_rows ?pi ?pf [[''chr1'', ''100'', ''200'', ''G'', ''1.0''], [''chr2'', ''100'', ''200'', ''G'', ''-2.0'']]
      = Inl (IdentityMismatch ''probe Name'')"
    by (simp add: merge_rows_def row_to_probe_coverage_def check_unique_def)
  have e1: "merge_samples ?files ?pi ?pf [''a.cnr'', ''b.cnr''] None
      = ([?m], Raised (IdentityMismatch ''probe Name''), [(''a.cnr'', True), (''b.cnr'', True)])"
    by (simp add: merge_samples_def z r1 r2)
  have e2: "merge_samples ?files ?pi ?pf [''a.cnr'', ''b.cnr''] (Some 1)
      = ([?m], Abandoned, [(''a.cnr'', True), (''b.cnr'', True)])"
    by (simp add: merge_samples_def z r1 r2)
  have e3: "merge_samples ?good ?pi ?pf [''a.cnr'', ''b.cnr''] None
      = ([?m], Exhausted, [(''a.cnr'', False), (''b.cnr'', False)])"
    by (simp add: merge_samples_def z' r1 close_all_def)
  have d: "(None :: nat option) \<noteq> Some 0" by simp
  have h: "\<forall>f \<in> set [''a.cnr'', ''b.cnr'']. ?files f \<noteq> None" by simp
  have hs: "[(''a.cnr'', True), (''b.cnr'', True)] = map (\<lambda>f. (f, True)) [''a.cnr'', ''b.cnr'']"
    using merge_samples_handles [OF e1 d h] by simp
  show ?thesis using hs by (intro conjI e1 e2 e3)
qed

section \<open>Properties of the table of formats\<close>

text \<open>
  C9. The two formats without an implementation give no table: their formatters return
  \<^verbatim>\<open>NotImplemented\<close> for every input, without reading a row; their names \<open>gct\<close> and
  \<open>nexus-multi1\<close> are not keys of \<^verbatim>\<open>EXPORT_FORMATS\<close>, so that looking them up raises
  \<^verbatim>\<open>KeyError\<close>; and no name at all selects one of the two formatters.
\<close>

theorem unimplemented_formats:
  "fmt_gct sample_ids rows' = NotImplemented
   \<and> fmt_multi sample_ids rows' = NotImplemented
   \<and> lookup_format ''gct'' = Inl (KeyError ''gct'')
   \<and> lookup_format ''nexus-multi1'' = Inl (KeyError ''nexus-multi1'')
   \<and> (\<forall>name f. lookup_format name = Inr f \<longrightarrow> f \<noteq> Fmt_gct \<and> f \<noteq> Fmt_multi)"
proof -
  have "f \<noteq> Fmt_gct \<and> f \<noteq> Fmt_multi" if "lookup_format name = Inr f" for name f
  proof -
    from that have "map_of EXPORT_FORMATS name = Some f"
      by (simp add: lookup_format_def split: option.splits)
    then have "(name, f) \<in> set EXPORT_FORMATS" by (rule map_of_SomeD)
    then show ?thesis by (auto simp: EXPORT_FORMATS_def)
  qed
  then show ?thesis
    by (simp add: fmt_gct_def fmt_multi_def lookup_format_def EXPORT_FORMATS_def)
qed

theorem unimplemented_formats_witness:
  "lookup_format ''seg'' = Inr Export_seg \<and> Export_seg \<noteq> Fmt_gct \<and> Export_seg \<noteq> Fmt_multi
   \<and> fmt_gct [''A'', ''B''] [[Probe (ProbeInfo ''chr1:0-100:G'' ''chr1'' 0 100 ''G''), Coverage 1, Coverage 2]]
       = NotImplemented"
proof -
  have l: "lookup_format ''seg'' = Inr Export_seg"
    by (simp add: lookup_format_def EXPORT_FORMATS_def)
  from unimplemented_formats
    [of "[''A'', ''B'']" "[[Probe (ProbeInfo ''chr1:0-100:G'' ''chr1'' 0 100 ''G''), Coverage 1, Coverage 2]]"]
  have "Export_seg \<noteq> Fmt_gct \<and> Export_seg \<noteq> Fmt_multi"
    and "fmt_gct [''A'', ''B''] [[Probe (ProbeInfo ''chr1:0-100:G'' ''chr1'' 0 100 ''G''), Coverage 1, Coverage 2]]
       = NotImplemented"
    using l by blast+
  with l show ?thesis by simp
qed

section \<open>Properties of double precision rounding and of the THetA encoder\<close>

lemma round_even_of_int: "round_even (of_int n) = n"
  by (simp add: round_even_def)

lemma round_even_bounds: "\<lfloor>x\<rfloor> \<le> round_even x" "round_even x \<le> \<lfloor>x\<rfloor> + 1"
  by (simp_all add: round_even_def Let_def)

lemma round_even_mono: "x \<le> y \<Longrightarrow> round_even x \<le> round_even y"
proof -
  assume xy: "x \<le> y"
  have le: "\<lfloor>x\<rfloor> \<le> \<lfloor>y\<rfloor>" using xy by (rule floor_mono)
  show ?thesis
  proof (cases "\<lfloor>x\<rfloor> = \<lfloor>y\<rfloor>")
    case True
    with xy show ?thesis by (auto simp: round_even_def Let_def)
  next
    case False
    with le have "\<lfloor>x\<rfloor> + 1 \<le> \<lfloor>y\<rfloor>" by simp
    with round_even_bounds(2) [of x] round_even_bounds(1) [of y] show ?thesis by linarith
  qed
qed

lemma ulp_pos: "0 < ulp x"
  by (simp add: ulp_def)

lemma binade_upper:
  assumes "0 < x"
  shows "x < 2 powr (of_int (binade x) + 1)"
proof -
  have "\<lfloor>log 2 x\<rfloor> = \<lfloor>log 2 x\<rfloor>" ..
  then have "x < 2 powr of_int (\<lfloor>log 2 x\<rfloor> + 1)"
    using floor_log_eq_powr_iff [of x 2 "\<lfloor>log 2 x\<rfloor>"] assms by simp
  also have "\<dots> \<le> 2 powr of_int (binade x + 1)"
    using assms by (intro powr_mono) (simp_all add: binade_def)
  finally show ?thesis by simp
qed

lemma binade_lower:
  assumes "0 < x" and "- 1022 \<le> \<lfloor>log 2 x\<rfloor>"
  shows "2 powr of_int (binade x) \<le> x"
proof -
  have b: "binade x = \<lfloor>log 2 x\<rfloor>" using assms by (simp add: binade_def)
  have "\<lfloor>log 2 x\<rfloor> = \<lfloor>log 2 x\<rfloor>" ..
  then have "2 powr of_int \<lfloor>log 2 x\<rfloor> \<le> x"
    using floor_log_eq_powr_iff [of x 2 "\<lfloor>log 2 x\<rfloor>"] assms by simp
  with b show ?thesis by simp
qed

lemma binade_mono: "0 < x \<Longrightarrow> x \<le> y \<Longrightarrow> binade x \<le> binade y"
proof -
  assume a: "0 < x" "x \<le> y"
  then have "log 2 x \<le> log 2 y" by simp
  then have "\<lfloor>log 2 x\<rfloor> \<le> \<lfloor>log 2 y\<rfloor>" by (rule floor_mono)
  with a show ?thesis by (simp add: binade_def)
qed

lemma ulp_powr: "ulp x = 2 powr (of_int (binade x) - 52)"
  by (simp add: ulp_def)

lemma powr_split: "(2::real) powr (t + 1) = 2 ^ 53 * 2 powr (t - 52)"
proof -
  have e: "t + 1 = 53 + (t - 52)" by simp
  have "(2::real) powr (t + 1) = 2 powr (53 + (t - 52))" by (subst e) (rule refl)
  also have "\<dots> = 2 powr 53 * 2 powr (t - 52)" by (rule powr_add)
  also have "(2::real) powr 53 = 2 ^ 53" by (simp add: powr_numeral)
  finally show ?thesis .
qed

lemma powr_split': "(2::real) powr t = 2 ^ 52 * 2 powr (t - 52)"
proof -
  have e: "t = 52 + (t - 52)" by simp
  have "(2::real) powr t = 2 powr (52 + (t - 52))" by (subst e) (rule refl)
  also have "\<dots> = 2 powr 52 * 2 powr (t - 52)" by (rule powr_add)
  also have "(2::real) powr 52 = 2 ^ 52" by (simp add: powr_numeral)
  finally show ?thesis .
qed

lemma binade_upper_ulp: "0 < x \<Longrightarrow> x < 2 ^ 53 * ulp x"
  using binade_upper [of x] unfolding ulp_powr powr_split [of "of_int (binade x)"] by simp

lemma binade_lower_ulp: "0 < x \<Longrightarrow> - 1022 \<le> \<lfloor>log 2 x\<rfloor> \<Longrightarrow> 2 ^ 52 * ulp x \<le> x"
  using binade_lower [of x] unfolding ulp_powr powr_split' [of "of_int (binade x)"] by simp

lemma nearest_upper:
  assumes "0 < x"
  shows "nearest x \<le> 2 ^ 53 * ulp x"
proof -
  have "x / ulp x \<le> of_int (2 ^ 53)"
    using binade_upper_ulp [OF assms] ulp_pos [of x] by (simp add: pos_divide_le_eq)
  then have "round_even (x / ulp x) \<le> round_even (of_int (2 ^ 53))"
    by (rule round_even_mono)
  then have "round_even (x / ulp x) \<le> 2 ^ 53" by (simp only: round_even_of_int)
  then have "real_of_int (round_even (x / ulp x)) \<le> real_of_int (2 ^ 53)"
    by (simp only: of_int_le_iff)
  then have "of_int (round_even (x / ulp x)) * ulp x \<le> 2 ^ 53 * ulp x"
    using ulp_pos [of x] by (simp add: mult_right_mono)
  with assms show ?thesis by (simp add: nearest_def)
qed

lemma nearest_lower:
  assumes "0 < x" and "- 1022 \<le> \<lfloor>log 2 x\<rfloor>"
  shows "2 ^ 52 * ulp x \<le> nearest x"
proof -
  have "of_int (2 ^ 52) \<le> x / ulp x"
    using binade_lower_ulp [OF assms] ulp_pos [of x] by (simp add: pos_le_divide_eq)
  then have "round_even (of_int (2 ^ 52)) \<le> round_even (x / ulp x)"
    by (rule round_even_mono)
  then have "2 ^ 52 \<le> round_even (x / ulp x)" by (simp only: round_even_of_int)
  then have "real_of_int (2 ^ 52) \<le> real_of_int (round_even (x / ulp x))"
    by (simp only: of_int_le_iff)
  then have "2 ^ 52 * ulp x \<le> of_int (round_even (x / ulp x)) * ulp x"
    using ulp_pos [of x] by (simp add: mult_right_mono)
  with assms show ?thesis by (simp add: nearest_def)
qed

lemma nearest_nonneg: "0 \<le> x \<Longrightarrow> 0 \<le> nearest x"
proof -
  assume a: "0 \<le> x"
  then have "0 \<le> x / ulp x" using ulp_pos [of x] by simp
  then have "round_even (of_int 0) \<le> round_even (x / ulp x)"
    by (intro round_even_mono) simp
  then have "0 \<le> round_even (x / ulp x)" by (simp only: round_even_of_int)
  then show ?thesis using ulp_pos [of x] by (simp add: nearest_def)
qed

lemma nearest_mono:
  assumes "0 \<le> x" and "x \<le> y"
  shows "nearest x \<le> nearest y"
proof (cases "x = 0")
  case True
  with assms nearest_nonneg [of y] show ?thesis by (simp add: nearest_def)
next
  case False
  with assms have x: "0 < x" and y: "0 < y" by simp_all
  have b: "binade x \<le> binade y" using x assms(2) by (rule binade_mono)
  show ?thesis
  proof (cases "binade x = binade y")
    case True
    then have u: "ulp x = ulp y" by (simp add: ulp_def)
    have "x / ulp y \<le> y / ulp y" using assms(2) ulp_pos [of y] by (simp add: divide_right_mono)
    then have "round_even (x / ulp y) \<le> round_even (y / ulp y)" by (rule round_even_mono)
    then have "real_of_int (round_even (x / ulp y)) \<le> real_of_int (round_even (y / ulp y))"
      by linarith
    then have "of_int (round_even (x / ulp y)) * ulp y \<le> of_int (round_even (y / ulp y)) * ulp y"
      using ulp_pos [of y] by (simp add: mult_right_mono)
    with x y u show ?thesis by (simp add: nearest_def)
  next
    case False
    with b have lt: "binade x + 1 \<le> binade y" by simp
    then have "- 1022 < binade y" using b by (simp add: binade_def)
    then have ly: "- 1022 \<le> \<lfloor>log 2 y\<rfloor>" using y by (simp add: binade_def max_def split: if_splits)
    have "nearest x \<le> 2 ^ 53 * ulp x" using x by (rule nearest_upper)
    also have "\<dots> = 2 powr (of_int (binade x) + 1)"
      unfolding ulp_powr by (rule powr_split [symmetric])
    also have "\<dots> \<le> 2 powr of_int (binade y)" using lt by (intro powr_mono) simp_all
    also have "\<dots> = 2 ^ 52 * ulp y"
      unfolding ulp_powr by (rule powr_split')
    also have "\<dots> \<le> nearest y" using y ly by (rule nearest_lower)
    finally show ?thesis .
  qed
qed

lemma binade_eq:
  assumes "0 < x" and "2 powr of_int e \<le> x" and "x < 2 powr of_int (e + 1)" and "- 1022 \<le> e"
  shows "binade x = e"
proof -
  have "\<lfloor>log 2 x\<rfloor> = e"
    using floor_log_eq_powr_iff [of x 2 e] assms by simp
  with assms show ?thesis by (simp add: binade_def)
qed

lemma nearest_eval:
  assumes "0 < x" and "2 powr of_int e \<le> x" and "x < 2 powr of_int (e + 1)" and "- 1022 \<le> e"
  shows "nearest x = of_int (round_even (x / 2 powr of_int (e - 52))) * 2 powr of_int (e - 52)"
  using assms(1) binade_eq [OF assms] by (simp add: nearest_def ulp_def)

lemma nearest_int:
  assumes "0 \<le> n" and "n < 2 ^ 53"
  shows "nearest (of_int n) = of_int n"
proof (cases "n = 0")
  case True
  then show ?thesis by (simp add: nearest_def)
next
  case False
  with assms have n: "0 < n" by simp
  let ?x = "real_of_int n"
  have x: "0 < ?x" "1 \<le> ?x" using n by simp_all
  have "log 2 1 \<le> log 2 ?x" using x by (simp del: log_one)
  then have l0: "0 \<le> \<lfloor>log 2 ?x\<rfloor>" by simp
  have ax: "\<bar>?x\<bar> = ?x" using x by simp
  have b: "binade ?x = \<lfloor>log 2 ?x\<rfloor>" unfolding binade_def ax using l0 by simp
  have c1: "?x < 2 ^ 53" using assms(2) by (metis of_int_less_iff of_int_numeral of_int_power)
  have c2: "2 powr of_int (binade ?x) \<le> ?x"
  proof (rule binade_lower [OF x(1)])
    from l0 show "- 1022 \<le> \<lfloor>log 2 ?x\<rfloor>" by linarith
  qed
  have p53: "(2::real) powr 53 = 2 ^ 53" by (simp add: powr_numeral)
  have "2 powr of_int (binade ?x) < (2::real) powr 53"
    unfolding p53 using c1 c2 by (rule le_less_trans [rotated])
  then have "real_of_int (binade ?x) < 53"
    by (subst (asm) powr_less_cancel_iff) simp_all
  then have "binade ?x < 53" by linarith
  then have k: "0 \<le> 52 - binade ?x" by simp
  define k where "k = nat (52 - binade ?x)"
  have u: "ulp ?x * 2 ^ k = 1"
  proof -
    have "(2::real) ^ k = 2 powr of_int (52 - binade ?x)"
      using powr_real_of_int [of "2::real" "52 - binade ?x"] k by (simp add: k_def)
    then have "ulp ?x * 2 ^ k = 2 powr of_int (binade ?x - 52) * 2 powr of_int (52 - binade ?x)"
      by (simp add: ulp_def)
    also have "\<dots> = 2 powr (of_int (binade ?x - 52) + of_int (52 - binade ?x))"
      by (rule powr_add [symmetric])
    also have "\<dots> = 1" by simp
    finally show ?thesis .
  qed
  then have d: "?x / ulp ?x = ?x * 2 ^ k"
    using ulp_pos [of ?x] by (simp add: field_simps)
  have "?x * 2 ^ k = of_int (n * 2 ^ k)" by simp
  then have "round_even (?x / ulp ?x) = n * 2 ^ k"
    unfolding d by (simp only: round_even_of_int)
  then have "nearest ?x = of_int (n * 2 ^ k) * ulp ?x"
    using x(1) by (simp add: nearest_def)
  also have "\<dots> = ?x * (ulp ?x * 2 ^ k)" by simp
  also have "\<dots> = ?x" by (simp only: u mult_1_right)
  finally show ?thesis .
qed

lemma fl_int: "0 \<le> n \<Longrightarrow> n < 2 ^ 53 \<Longrightarrow> fl (of_int n) = Finite (of_int n)"
proof -
  assume a: "0 \<le> n" "n < 2 ^ 53"
  have "(2::int) ^ 53 \<le> 2 ^ 1024" by (rule power_increasing) simp_all
  with a have "n < 2 ^ 1024" by linarith
  then have "real_of_int n < 2 ^ 1024" by (metis of_int_less_iff of_int_numeral of_int_power)
  with a show ?thesis by (simp add: fl_def real_overflows_def nearest_int)
qed

lemma py_round_mono_nonneg: "0 \<le> x \<Longrightarrow> x \<le> y \<Longrightarrow> py_round x \<le> py_round y"
proof -
  assume a: "0 \<le> x" "x \<le> y"
  then have "\<lfloor>x + 1 / 2\<rfloor> \<le> \<lfloor>y + 1 / 2\<rfloor>" by (intro floor_mono) simp
  with a show ?thesis by (simp add: py_round_nonneg)
qed

lemma py_round_of_nonneg_int: "0 \<le> n \<Longrightarrow> py_round (of_int n) = n"
proof -
  assume "0 \<le> n"
  then have "py_round (of_int n) = \<lfloor>real_of_int n + 1 / 2\<rfloor>" by (simp add: py_round_nonneg)
  also have "\<dots> = n" by linarith
  finally show ?thesis .
qed

lemma int_to_double_nonneg: "0 \<le> i \<Longrightarrow> 0 \<le> int_to_double i"
  by (simp add: int_to_double_def)

lemma to_float_small: "\<bar>i\<bar> < 2 ^ 53 \<Longrightarrow> to_float i = Inr (Finite (of_int i))"
  by (simp add: to_float_def float_of_int_def small_fits int_to_double_small)

lemma to_float_100: "to_float 100 = Inr (Finite 100)"
  using to_float_small [of 100] by simp

lemma to_float_Inr: "to_float i = Inr d \<Longrightarrow> d = Finite (of_int (int_to_double i))"
  by (auto simp: to_float_def float_of_int_def split: if_splits)

lemma fl_Finite: "fl x = Finite y \<Longrightarrow> y = nearest x"
  by (auto simp: fl_def split: if_splits)

lemma fl_cases: "fl x = Infinity \<or> fl x = Finite (nearest x)"
  by (simp add: fl_def)

lemma int_round_Inr: "int_round d = Inr c \<Longrightarrow> \<exists>x. d = Finite x \<and> c = py_round x"
  by (cases d) (auto simp: int_round_def)

lemma fdiv_100_Inr:
  "fdiv d (Finite 100) = Inr (Finite q) \<Longrightarrow> \<exists>t. d = Finite t \<and> q = nearest (t / 100)"
  by (cases d) (auto dest: fl_Finite)

lemma fmul_Finite:
  "fmul d1 d2 = Finite t \<Longrightarrow> \<exists>x y. d1 = Finite x \<and> d2 = Finite y \<and> t = nearest (x * y)"
  by (cases d1; cases d2) (auto dest: fl_Finite split: if_splits)

lemma logratio2count_value:
  assumes "logratio2count pow2 100 100 ss l = Inr c" and "pow2 l = Inr (Finite a)"
  shows "c = py_round (nearest (nearest (of_int (int_to_double ss) * nearest (a * 100)) / 100))"
proof -
  from assms obtain sd rc where
    sd: "to_float ss = Inr sd" and
    rc: "fdiv (fmul sd (fmul (Finite a) (Finite 100))) (Finite 100) = Inr rc" and
    c: "int_round rc = Inr c"
    by (auto simp: logratio2count_def to_float_100 Let_def split: sum.splits)
  from int_round_Inr [OF c] obtain q where q: "rc = Finite q" "c = py_round q" by blast
  from fdiv_100_Inr [OF rc [unfolded q(1)]] obtain t where
    t: "fmul sd (fmul (Finite a) (Finite 100)) = Finite t" "q = nearest (t / 100)" by blast
  from fmul_Finite [OF t(1)] obtain x y where
    xy: "sd = Finite x" "fmul (Finite a) (Finite 100) = Finite y" "t = nearest (x * y)" by blast
  from fmul_Finite [OF xy(2)] have y: "y = nearest (a * 100)" by auto
  from to_float_Inr [OF sd] xy(1) have x: "x = of_int (int_to_double ss)" by simp
  from q t xy y x show ?thesis by simp
qed

lemma logratio2count_mono:
  assumes "logratio2count pow2 100 100 ss l1 = Inr c1" and "pow2 l1 = Inr (Finite a)"
    and "logratio2count pow2 100 100 ss l2 = Inr c2" and "pow2 l2 = Inr (Finite b)"
    and "0 \<le> ss" and "0 \<le> a" and "a \<le> b"
  shows "c1 \<le> c2"
proof -
  let ?S = "real_of_int (int_to_double ss)"
  have S: "0 \<le> ?S" using int_to_double_nonneg [OF assms(5)] by simp
  have a: "0 \<le> a * 100" "a * 100 \<le> b * 100" using assms(6,7) by simp_all
  have u: "0 \<le> nearest (a * 100)" "nearest (a * 100) \<le> nearest (b * 100)"
    using a by (simp_all add: nearest_nonneg nearest_mono)
  have p: "0 \<le> ?S * nearest (a * 100)" "?S * nearest (a * 100) \<le> ?S * nearest (b * 100)"
    using S u by (simp_all add: mult_left_mono)
  have t: "0 \<le> nearest (?S * nearest (a * 100))"
    "nearest (?S * nearest (a * 100)) \<le> nearest (?S * nearest (b * 100))"
    using p by (simp_all add: nearest_nonneg nearest_mono)
  have d: "0 \<le> nearest (?S * nearest (a * 100)) / 100"
    "nearest (?S * nearest (a * 100)) / 100 \<le> nearest (?S * nearest (b * 100)) / 100"
    using t by simp_all
  have q: "0 \<le> nearest (nearest (?S * nearest (a * 100)) / 100)"
    "nearest (nearest (?S * nearest (a * 100)) / 100) \<le> nearest (nearest (?S * nearest (b * 100)) / 100)"
    using d by (simp_all add: nearest_nonneg nearest_mono)
  show ?thesis
    unfolding logratio2count_value [OF assms(1,2)] logratio2count_value [OF assms(3,4)]
    using q by (rule py_round_mono_nonneg)
qed

lemma logratio2count_unit:
  assumes "pow2 l = Inr (Finite 1)" and "0 \<le> pr" and "pr \<le> 90071992547"
  shows "logratio2count pow2 100 100 (1000 * pr) l = Inr (1000 * pr)"
proof -
  have s: "\<bar>1000 * pr\<bar> < 2 ^ 53" using assms(2,3) by simp
  have f1: "fl 100 = Finite 100" using fl_int [of 100] by simp
  have f2: "fl (100000 * real_of_int pr) = Finite (100000 * of_int pr)"
    using fl_int [of "100000 * pr"] assms(2,3) by simp
  have f3: "fl (1000 * real_of_int pr) = Finite (1000 * of_int pr)"
    using fl_int [of "1000 * pr"] assms(2,3) by simp
  have r: "py_round (1000 * real_of_int pr) = 1000 * pr"
    using py_round_of_nonneg_int [of "1000 * pr"] assms(2) by simp
  show ?thesis
    using assms(1)
    by (simp add: logratio2count_def to_float_100 to_float_small [OF s] f1 f2 f3 int_round_def r)
qed

lemma calculate_theta_fields_Inr:
  assumes "calculate_theta_fields pow2 tumor_segs seg ref_mean chrom_id =
             Inr (row_id, cid, s, e, tumor_count, ref_count)"
  shows "logratio2count pow2 100 100 (1000 * probes seg) (log2 seg) = Inr tumor_count"
    and "logratio2count pow2 100 100 (1000 * probes seg) ref_mean = Inr ref_count"
  using assms
  by (auto simp: calculate_theta_fields_def row_probes_def Let_def split: if_splits sum.splits)

text \<open>
  C3, as stated, fails: with a probe count of \<open>2\<^sup>5\<^sup>3 + 1\<close> and a log2 ratio of 0 the count
  is 9007199254740993024, where \<open>round(1000 * probes)\<close> is 9007199254740993000.
\<close>

theorem logratio2count_counterexample:
  "calculate_theta_fields (\<lambda>x. Inr (fl (2 powr x)))
     \<lparr>sample_id = ''T'', has_probes = True, rows = []\<rparr>
     \<lparr>chromosome = ''chr1'', start = 0, end_pos = 100, gene = ''G'', log2 = 0,
      probes = 9007199254740993\<rparr> 0 1
   = Inr (''start_1_0:end_1_100'', 1, 0, 100, 9007199254740993024, 9007199254740993024)
   \<and> py_round (1000 * 9007199254740993 * 2 powr 0) = 9007199254740993000"
proof -
  have p: "fl 1 = Finite 1" using fl_int [of 1] by simp
  have f100: "fl 100 = Finite 100" using fl_int [of 100] by simp
  have tf: "to_float 9007199254740993000 = Inr (Finite 9007199254740993024)"
    by (simp add: to_float_def float_of_int_def float_overflows_def int_to_double_def
        nat_to_double_def bitlen.simps Let_def)
  have n1: "nearest 900719925474099302400 = 900719925474099331072"
  proof -
    have "nearest 900719925474099302400 =
        of_int (round_even (900719925474099302400 / 2 powr of_int (69 - 52))) * 2 powr of_int (69 - 52)"
      by (rule nearest_eval) (simp_all add: powr_numeral)
    also have "\<dots> = 900719925474099331072"
      by (simp add: powr_numeral round_even_def)
    finally show ?thesis .
  qed
  have n2: "nearest (900719925474099331072 / 100) = 9007199254740993024"
  proof -
    have "nearest (900719925474099331072 / 100) =
        of_int (round_even (900719925474099331072 / 100 / 2 powr of_int (62 - 52)))
          * 2 powr of_int (62 - 52)"
      by (rule nearest_eval) (simp_all add: powr_numeral)
    also have "\<dots> = 9007199254740993024"
      by (simp add: powr_numeral round_even_def)
    finally show ?thesis .
  qed
  have f1: "fl 900719925474099302400 = Finite 900719925474099331072"
    by (simp add: fl_def n1 real_overflows_def)
  have f2: "fl (900719925474099331072 / 100) = Finite 9007199254740993024"
    by (simp only: fl_def n2) (simp add: real_overflows_def)
  have r: "py_round 9007199254740993024 = 9007199254740993024"
    "py_round 9007199254740993000 = 9007199254740993000"
    by (simp_all add: py_round_def)
  have c: "logratio2count (\<lambda>x. Inr (fl (2 powr x))) 100 100 9007199254740993000 0
      = Inr 9007199254740993024"
    by (simp add: logratio2count_def to_float_100 tf p f100 f1 f2 [simplified] int_round_def r)
  have d: "fmt_d 1 = ''1''" "fmt_d 0 = ''0''" "fmt_d 100 = ''100''"
    by (simp_all add: fmt_d_def digits.simps)
  show ?thesis
    by (simp add: calculate_theta_fields_def row_probes_def c d r)
qed

text \<open>
  C3, amended. For a segment whose probe count is not negative, a count that
  \<^verbatim>\<open>calculate_theta_fields\<close> returns is \<open>round((2\<^sup>l * 100) * (1000 * probes) / 100)\<close>
  computed in double precision: the probe count times 1000 converted to a double, and
  each product and quotient rounded to the nearest double. For \<open>l = 0\<close>, where the power is
  1, and a probe count up to 90071992547 it is exactly \<open>1000 * probes\<close>. And of the two
  counts of a segment, which share the probe count, the one with the smaller power
  \<open>2\<^sup>l\<close> is not the greater: the count does not decrease when the power does not.
\<close>

theorem logratio2count_double:
  assumes "calculate_theta_fields pow2 tumor_segs seg ref_mean chrom_id =
             Inr (row_id, cid, s, e, tumor_count, ref_count)"
    and "0 \<le> probes seg"
  shows "(\<forall>a. pow2 (log2 seg) = Inr (Finite a) \<longrightarrow>
            tumor_count = py_round (nearest (nearest
              (of_int (int_to_double (1000 * probes seg)) * nearest (a * 100)) / 100)))
       \<and> (log2 seg = 0 \<and> pow2 0 = Inr (Finite 1) \<and> probes seg \<le> 90071992547 \<longrightarrow>
            tumor_count = 1000 * probes seg)
       \<and> (ref_mean = 0 \<and> pow2 0 = Inr (Finite 1) \<and> probes seg \<le> 90071992547 \<longrightarrow>
            ref_count = 1000 * probes seg)
       \<and> (\<forall>a b. pow2 (log2 seg) = Inr (Finite a) \<and> pow2 ref_mean = Inr (Finite b)
              \<and> 0 \<le> a \<and> a \<le> b \<longrightarrow> tumor_count \<le> ref_count)
       \<and> (\<forall>a b. pow2 (log2 seg) = Inr (Finite a) \<and> pow2 ref_mean = Inr (Finite b)
              \<and> 0 \<le> b \<and> b \<le> a \<longrightarrow> ref_count \<le> tumor_count)"
proof -
  note t = calculate_theta_fields_Inr(1) [OF assms(1)]
  note r = calculate_theta_fields_Inr(2) [OF assms(1)]
  have ss: "0 \<le> 1000 * probes seg" using assms(2) by simp
  have c1: "tumor_count = py_round (nearest (nearest
              (of_int (int_to_double (1000 * probes seg)) * nearest (a * 100)) / 100))"
    if "pow2 (log2 seg) = Inr (Finite a)" for a
    using logratio2count_value [of pow2 "1000 * probes seg" "log2 seg" tumor_count a, OF t that] .
  have c2: "tumor_count = 1000 * probes seg"
    if "log2 seg = 0" "pow2 0 = Inr (Finite 1)" "probes seg \<le> 90071992547"
  proof -
    from that have "pow2 (log2 seg) = Inr (Finite 1)" by simp
    from logratio2count_unit [of pow2 "log2 seg" "probes seg", OF this assms(2) that(3)] t
    show ?thesis by simp
  qed
  have c3: "ref_count = 1000 * probes seg"
    if "ref_mean = 0" "pow2 0 = Inr (Finite 1)" "probes seg \<le> 90071992547"
  proof -
    from that have "pow2 ref_mean = Inr (Finite 1)" by simp
    from logratio2count_unit [of pow2 ref_mean "probes seg", OF this assms(2) that(3)] r
    show ?thesis by simp
  qed
  have c4: "tumor_count \<le> ref_count"
    if "pow2 (log2 seg) = Inr (Finite a)" "pow2 ref_mean = Inr (Finite b)" "0 \<le> a" "a \<le> b"
    for a b
    using logratio2count_mono [of pow2 "1000 * probes seg" "log2 seg" tumor_count a ref_mean ref_count b,
        OF t that(1) r that(2) ss that(3,4)] .
  have c5: "ref_count \<le> tumor_count"
    if "pow2 (log2 seg) = Inr (Finite a)" "pow2 ref_mean = Inr (Finite b)" "0 \<le> b" "b \<le> a"
    for a b
    using logratio2count_mono [of pow2 "1000 * probes seg" ref_mean ref_count b "log2 seg" tumor_count a,
        OF r that(2) t that(1) ss that(3,4)] .
  from c1 c2 c3 c4 c5 show ?thesis by blast
qed

theorem logratio2count_double_witness:
  "calculate_theta_fields (\<lambda>x. Inr (fl (2 powr x)))
     \<lparr>sample_id = ''T'', has_probes = True, rows = []\<rparr>
     \<lparr>chromosome = ''chr1'', start = 0, end_pos = 100, gene = ''G'', log2 = 1, probes = 10\<rparr> 0 1
   = Inr (''start_1_0:end_1_100'', 1, 0, 100, 20000, 10000)
   \<and> (10000::int) = 1000 * 10 \<and> (10000::int) \<le> 20000"
proof -
  let ?pow2 = "\<lambda>x. Inr (fl (2 powr x)) :: error + double"
  let ?T = "\<lparr>sample_id = ''T'', has_probes = True, rows = []\<rparr>"
  let ?seg = "\<lparr>chromosome = ''chr1'', start = 0, end_pos = 100, gene = ''G'', log2 = 1, probes = 10\<rparr>"
  have p0: "?pow2 0 = Inr (Finite 1)" using fl_int [of 1] by simp
  have p1: "?pow2 (log2 ?seg) = Inr (Finite 2)" using fl_int [of 2] by simp
  have pm: "?pow2 0 = Inr (Finite 1)" by (rule p0)
  have f: "fl 100 = Finite 100" "fl 200 = Finite 200" "fl 1000000 = Finite 1000000"
    "fl 2000000 = Finite 2000000" "fl 10000 = Finite 10000" "fl 20000 = Finite 20000"
    using fl_int [of 100] fl_int [of 200] fl_int [of 1000000] fl_int [of 2000000]
      fl_int [of 10000] fl_int [of 20000] by simp_all
  have tf: "to_float 10000 = Inr (Finite 10000)" using to_float_small [of 10000] by simp
  have r: "py_round 20000 = 20000" "py_round 10000 = 10000" by (simp_all add: py_round_def)
  have d: "fmt_d 1 = ''1''" "fmt_d 0 = ''0''" "fmt_d 100 = ''100''"
    by (simp_all add: fmt_d_def digits.simps)
  have c1: "logratio2count ?pow2 100 100 10000 1 = Inr 20000"
    using fl_int [of 2] by (simp add: logratio2count_def to_float_100 tf f int_round_def r)
  have c0: "logratio2count ?pow2 100 100 10000 0 = Inr 10000"
    using fl_int [of 1] by (simp add: logratio2count_def to_float_100 tf f int_round_def r)
  have e: "calculate_theta_fields ?pow2 ?T ?seg 0 1
      = Inr (''start_1_0:end_1_100'', 1, 0, 100, 20000, 10000)"
    by (simp add: calculate_theta_fields_def row_probes_def c1 c0 d)
  have n: "0 \<le> probes ?seg" by simp
  from logratio2count_double [OF e n] p0 p1 have
    h: "(10000::int) = 1000 * probes ?seg \<and> (10000::int) \<le> 20000"
    by (simp only: simp_thms) simp
  show ?thesis using h by (intro conjI e) simp_all
qed

end
